theory Spec2Isabelle
  imports Complex_Main "HOL-Library.Char_ord" "HOL-Library.List_Lexorder"
    "HOL-Library.Multiset"
begin

section \<open>Personal expense tracker: the ledger model\<close>

text \<open>
  The program keeps its ledger as a Python list of dictionaries, read from and written to
  \<^verbatim>\<open>expenses.json\<close>. A dictionary is modelled as an association list from keys to JSON
  values (looked up with \<open>map_of\<close>, as \<^verbatim>\<open>e.get(key)\<close> does); what a dictionary holds under a
  key is any JSON value, as in the source's type \<^verbatim>\<open>Dict[str, Any]\<close>.
\<close>

subsection \<open>Strings\<close>

text \<open>
  A \<open>string\<close> is a list of 8-bit characters, read here as the code points below 256 of a
  Python \<^verbatim>\<open>str\<close>. \<open>isspace\<close> lists the code points below 256 for which Python's
  \<^verbatim>\<open>str.isspace\<close> holds; \<^verbatim>\<open>str.strip()\<close> removes them at both ends.
\<close>

definition isspace :: "char \<Rightarrow> bool" where
  "isspace c = (let n = (of_char c :: int) in
     (9 \<le> n \<and> n \<le> 13) \<or> (28 \<le> n \<and> n \<le> 32) \<or> n = 133 \<or> n = 160)"

definition strip :: "string \<Rightarrow> string" where
  "strip s = rev (dropWhile isspace (rev (dropWhile isspace s)))"

text \<open>
  \<^verbatim>\<open>str.lower()\<close> on code points below 256: the letters A to Z and the accented capitals
  (192 to 222, the multiplication sign 215 apart) move up by 32.
\<close>

definition lower_char :: "char \<Rightarrow> char" where
  "lower_char c = (let n = (of_char c :: int) in
     if (65 \<le> n \<and> n \<le> 90) \<or> (192 \<le> n \<and> n \<le> 222 \<and> n \<noteq> 215)
     then char_of (n + 32) else c)"

definition lower :: "string \<Rightarrow> string" where
  "lower s = map lower_char s"

text \<open>\<^verbatim>\<open>k in s\<close> on strings: \<open>k\<close> occurs in \<open>s\<close> as a contiguous run of characters.\<close>

fun starts_with :: "string \<Rightarrow> string \<Rightarrow> bool" where
  "starts_with [] s = True"
| "starts_with (a # k) [] = False"
| "starts_with (a # k) (c # s) = (a = c \<and> starts_with k s)"

fun is_substring :: "string \<Rightarrow> string \<Rightarrow> bool" where
  "is_substring k [] = (k = [])"
| "is_substring k (c # s) = (starts_with k (c # s) \<or> is_substring k s)"

subsection \<open>Python floats\<close>

text \<open>
  A Python \<^verbatim>\<open>float\<close> is an IEEE 754 binary64 value. A finite one is modelled by the
  rational number it stands for (\<open>Finite 0\<close> is \<open>+0.0\<close>, \<open>NegZero\<close> is \<open>-0.0\<close>);
  every operation computes the exact rational result and rounds it to the nearest
  binary64 value, ties to even, as the hardware does.
\<close>

datatype pyfloat = Finite rat | NegZero | PosInf | NegInf | NaN

definition pow2 :: "int \<Rightarrow> rat" where
  "pow2 e = (if 0 \<le> e then 2 ^ nat e else 1 / 2 ^ nat (- e))"

definition pow10 :: "int \<Rightarrow> rat" where
  "pow10 e = (if 0 \<le> e then 10 ^ nat e else 1 / 10 ^ nat (- e))"

text \<open>The number of binary digits of a positive integer (Python's \<^verbatim>\<open>int.bit_length\<close>).\<close>

function bit_length :: "int \<Rightarrow> int" where
  "bit_length n = (if n \<le> 0 then 0 else 1 + bit_length (n div 2))"
  by pat_completeness auto
termination
  by (relation "measure nat") auto

text \<open>For \<open>0 < a\<close>, the exponent \<open>e\<close> with \<open>2 ^ e \<le> a < 2 ^ (e + 1)\<close>.\<close>

definition ilog2 :: "rat \<Rightarrow> int" where
  "ilog2 a = (if 1 \<le> a then bit_length \<lfloor>a\<rfloor> - 1
              else - bit_length (\<lceil>1 / a\<rceil> - 1))"

text \<open>Rounding to the nearest integer, a tie to the even one.\<close>

definition round_half_even :: "rat \<Rightarrow> int" where
  "round_half_even x =
     (let f = \<lfloor>x\<rfloor>; d = x - of_int f
      in if d < 1 / 2 then f else if 1 / 2 < d then f + 1
         else if even f then f else f + 1)"

text \<open>
  \<open>round_to_double neg a\<close> is the binary64 value nearest to the magnitude \<open>0 \<le> a\<close>
  with the sign \<open>neg\<close>: 53 significant bits, the exponent no smaller than that of the
  subnormal numbers, infinity from \<open>2 ^ 1024\<close> on (when the integer part of the rounded
  magnitude has more than 1024 binary digits).
\<close>

definition round_to_double :: "bool \<Rightarrow> rat \<Rightarrow> pyfloat" where
  "round_to_double neg a =
     (if a = 0 then (if neg then NegZero else Finite 0)
      else let e = max (ilog2 a) (- 1022);
               q = pow2 (e - 52);
               r = of_int (round_half_even (a / q)) * q
           in if 1024 < bit_length \<lfloor>r\<rfloor> then (if neg then NegInf else PosInf)
              else if r = 0 then (if neg then NegZero else Finite 0)
              else Finite (if neg then - r else r))"

definition double_of_rat :: "rat \<Rightarrow> pyfloat" where
  "double_of_rat x = round_to_double (x < 0) \<bar>x\<bar>"

text \<open>Float addition, \<^verbatim>\<open>x + y\<close>.\<close>

fun fadd :: "pyfloat \<Rightarrow> pyfloat \<Rightarrow> pyfloat" where
  "fadd NaN y = NaN"
| "fadd x NaN = NaN"
| "fadd PosInf NegInf = NaN"
| "fadd NegInf PosInf = NaN"
| "fadd PosInf y = PosInf"
| "fadd NegInf y = NegInf"
| "fadd x PosInf = PosInf"
| "fadd x NegInf = NegInf"
| "fadd NegZero y = y"
| "fadd x NegZero = x"
| "fadd (Finite a) (Finite b) = (if a + b = 0 then Finite 0 else double_of_rat (a + b))"

definition fneg :: "pyfloat \<Rightarrow> pyfloat" where
  "fneg x = (case x of Finite a \<Rightarrow> (if a = 0 then NegZero else Finite (- a))
               | NegZero \<Rightarrow> Finite 0 | PosInf \<Rightarrow> NegInf | NegInf \<Rightarrow> PosInf | NaN \<Rightarrow> NaN)"

definition fsub :: "pyfloat \<Rightarrow> pyfloat \<Rightarrow> pyfloat" where
  "fsub x y = fadd x (fneg y)"

definition fabs :: "pyfloat \<Rightarrow> pyfloat" where
  "fabs x = (case x of Finite a \<Rightarrow> Finite \<bar>a\<bar> | NegZero \<Rightarrow> Finite 0
               | NegInf \<Rightarrow> PosInf | _ \<Rightarrow> x)"

text \<open>\<^verbatim>\<open>x <= y\<close> and \<^verbatim>\<open>x == y\<close> on floats: false when either side is \<open>NaN\<close>.\<close>

fun fle :: "pyfloat \<Rightarrow> pyfloat \<Rightarrow> bool" where
  "fle NaN y = False"
| "fle x NaN = False"
| "fle NegInf y = True"
| "fle x PosInf = True"
| "fle x NegInf = False"
| "fle PosInf y = False"
| "fle NegZero NegZero = True"
| "fle NegZero (Finite b) = (0 \<le> b)"
| "fle (Finite a) NegZero = (a \<le> 0)"
| "fle (Finite a) (Finite b) = (a \<le> b)"

definition feq :: "pyfloat \<Rightarrow> pyfloat \<Rightarrow> bool" where
  "feq x y = (fle x y \<and> fle y x)"

definition isfinite :: "pyfloat \<Rightarrow> bool" where
  "isfinite x = (case x of Finite a \<Rightarrow> True | NegZero \<Rightarrow> True | _ \<Rightarrow> False)"

text \<open>
  \<^verbatim>\<open>round(x, 2)\<close> on a float: the exact value of \<open>x\<close> is rounded to two decimal places,
  a tie to the even digit, and the decimal result is converted to the nearest float; the
  sign is kept, and infinities and \<open>NaN\<close> round to themselves.
\<close>

definition py_round2 :: "pyfloat \<Rightarrow> pyfloat" where
  "py_round2 x = (case x of
       Finite a \<Rightarrow> round_to_double (a < 0) (of_int \<bar>round_half_even (a * 100)\<bar> / 100)
     | _ \<Rightarrow> x)"

subsection \<open>JSON values and records\<close>

datatype json =
    JNull
  | JBool bool
  | JInt int
  | JFloat pyfloat
  | JStr string
  | JList "json list"
  | JObj "(string \<times> json) list"

type_synonym expense = "(string \<times> json) list"

text \<open>\<^verbatim>\<open>e.get(key)\<close>: the value under the key, or \<open>None\<close>.\<close>

definition get :: "expense \<Rightarrow> string \<Rightarrow> json option" where
  "get e k = map_of e k"

text \<open>\<^verbatim>\<open>e.get(key, default)\<close>.\<close>

definition get_default :: "expense \<Rightarrow> string \<Rightarrow> json \<Rightarrow> json" where
  "get_default e k d = (case get e k of None \<Rightarrow> d | Some v \<Rightarrow> v)"

subsection \<open>Exceptions\<close>

text \<open>
  The Python exceptions the functions below can raise; a function that can raise returns
  \<open>Inl\<close> of the exception. \<open>IOError\<close> stands for \<^verbatim>\<open>OSError\<close> and its subclasses.
  \<open>OutsideModel\<close> is no Python exception: it marks the two places where a value of an
  unexpected JSON type makes Python go on in a way this model does not follow (a category
  that is a number, a boolean or \<^verbatim>\<open>null\<close> used as a dictionary key; dates that are not
  all strings compared by \<^verbatim>\<open>sorted\<close>).
\<close>

datatype pyexn =
    AttributeError | TypeError | ValueError | KeyError | OverflowError | EOFError
  | IOError | JSONDecodeError | UnicodeDecodeError | OutsideModel

text \<open>The first exception of a sequence of computations, or all their values.\<close>

fun collect :: "('e + 'a) list \<Rightarrow> 'e + 'a list" where
  "collect [] = Inr []"
| "collect (Inl x # rs) = Inl x"
| "collect (Inr a # rs) = (case collect rs of Inl x \<Rightarrow> Inl x | Inr as \<Rightarrow> Inr (a # as))"

subsection \<open>Converting to float\<close>

text \<open>
  \<^verbatim>\<open>float(s)\<close> on a string follows the grammar of the language reference:
  \<^verbatim>\<open>[sign] (floatnumber | "inf" | "infinity" | "nan")\<close> between optional whitespace, with
  \<^verbatim>\<open>digitpart ::= digit (["_"] digit)*\<close>,
  \<^verbatim>\<open>number ::= [digitpart] "." digitpart | digitpart ["."]\<close> and
  \<^verbatim>\<open>exponent ::= ("e" | "E") [sign] digitpart\<close>.
  The decimal value is rounded to the nearest float; anything else is a \<open>ValueError\<close>.
\<close>

definition isdigit :: "char \<Rightarrow> bool" where
  "isdigit c = (let n = (of_char c :: int) in 48 \<le> n \<and> n \<le> 57)"

definition digit_val :: "char \<Rightarrow> int" where
  "digit_val c = of_char c - 48"

definition int_of_digits :: "string \<Rightarrow> int" where
  "int_of_digits ds = foldl (\<lambda>n c. 10 * n + digit_val c) 0 ds"

text \<open>After a digit: the digits of \<^verbatim>\<open>(["_"] digit)*\<close> and the rest of the text.\<close>

fun digits_tail :: "string \<Rightarrow> string \<times> string" where
  "digits_tail [] = ([], [])"
| "digits_tail [c] = (if isdigit c then ([c], []) else ([], [c]))"
| "digits_tail (c # d # s) =
     (if isdigit c then (let (ds, r) = digits_tail (d # s) in (c # ds, r))
      else if c = CHR ''_'' \<and> isdigit d then (let (ds, r) = digits_tail s in (d # ds, r))
      else ([], c # d # s))"

definition digitpart :: "string \<Rightarrow> (string \<times> string) option" where
  "digitpart s = (case s of
       [] \<Rightarrow> None
     | c # r \<Rightarrow> if isdigit c then (let (ds, r') = digits_tail r in Some (c # ds, r')) else None)"

text \<open>The digits before the point, the digits after it, and the rest of the text.\<close>

definition number :: "string \<Rightarrow> (string \<times> string \<times> string) option" where
  "number s = (case digitpart s of
       Some (ip, r) \<Rightarrow>
         (case r of
            [] \<Rightarrow> Some (ip, [], [])
          | c # r1 \<Rightarrow>
              if c = CHR ''.''
              then (case digitpart r1 of
                      Some (fp, r2) \<Rightarrow> Some (ip, fp, r2)
                    | None \<Rightarrow> Some (ip, [], r1))
              else Some (ip, [], r))
     | None \<Rightarrow>
         (case s of
            [] \<Rightarrow> None
          | c # r1 \<Rightarrow>
              if c = CHR ''.''
              then (case digitpart r1 of
                      Some (fp, r2) \<Rightarrow> Some ([], fp, r2)
                    | None \<Rightarrow> None)
              else None))"

text \<open>A sign, if the text starts with one: whether it is a minus, and the rest.\<close>

definition sign :: "string \<Rightarrow> bool \<times> string" where
  "sign s = (case s of
       [] \<Rightarrow> (False, s)
     | c # r \<Rightarrow> if c = CHR ''-'' then (True, r) else if c = CHR ''+'' then (False, r)
                else (False, s))"

text \<open>The optional exponent, which must end the text.\<close>

definition exponent :: "string \<Rightarrow> int option" where
  "exponent s = (case s of
       [] \<Rightarrow> Some 0
     | c # r \<Rightarrow>
         if c = CHR ''e'' \<or> c = CHR ''E''
         then (let (neg, r1) = sign r
               in case digitpart r1 of
                    Some (ds, []) \<Rightarrow>
                      Some (if neg then - int_of_digits ds else int_of_digits ds)
                  | _ \<Rightarrow> None)
         else None)"

text \<open>
  The whitespace \<^verbatim>\<open>float\<close> removes at both ends (the ASCII whitespace, and the two
  non-ASCII spaces below 256, which it first turns into blanks).
\<close>

definition isspace_float :: "char \<Rightarrow> bool" where
  "isspace_float c = (let n = (of_char c :: int) in
     (9 \<le> n \<and> n \<le> 13) \<or> n = 32 \<or> n = 133 \<or> n = 160)"

definition float_of_str :: "string \<Rightarrow> pyexn + pyfloat" where
  "float_of_str s0 =
     (let s = rev (dropWhile isspace_float (rev (dropWhile isspace_float s0)));
          (neg, a) = sign s
      in if lower a = ''inf'' \<or> lower a = ''infinity'' then Inr (if neg then NegInf else PosInf)
         else if lower a = ''nan'' then Inr NaN
         else case number a of
                None \<Rightarrow> Inl ValueError
              | Some (ip, fp, r) \<Rightarrow>
                  (case exponent r of
                     None \<Rightarrow> Inl ValueError
                   | Some ex \<Rightarrow>
                       Inr (round_to_double neg
                              (of_int (int_of_digits (ip @ fp)) * pow10 (ex - int (length fp))))))"

text \<open>\<^verbatim>\<open>float(i)\<close> on an integer: the nearest float, or \<open>OverflowError\<close>.\<close>

definition float_of_int :: "int \<Rightarrow> pyexn + pyfloat" where
  "float_of_int i = (case double_of_rat (of_int i) of
       PosInf \<Rightarrow> Inl OverflowError
     | NegInf \<Rightarrow> Inl OverflowError
     | r \<Rightarrow> Inr r)"

text \<open>\<^verbatim>\<open>float(v)\<close> on a value loaded from JSON.\<close>

fun py_float :: "json \<Rightarrow> pyexn + pyfloat" where
  "py_float (JFloat x) = Inr x"
| "py_float (JInt i) = float_of_int i"
| "py_float (JBool b) = Inr (Finite (if b then 1 else 0))"
| "py_float (JStr s) = float_of_str s"
| "py_float JNull = Inl TypeError"
| "py_float (JList xs) = Inl TypeError"
| "py_float (JObj kvs) = Inl TypeError"

subsection \<open>What the program does to its surroundings\<close>

text \<open>
  The functions print, prompt and write the data file. Each returns the list of these
  events in order. \<open>Prompt p\<close> is \<^verbatim>\<open>input(p)\<close> showing its prompt, \<open>Print s\<close> is
  \<^verbatim>\<open>print(s)\<close>, and \<open>PrintField l v\<close> is \<^verbatim>\<open>print(f"l: {v}")\<close>, the label followed by the
  value as Python formats it. \<open>Write es\<close> is a completed \<^verbatim>\<open>json.dump(es, f)\<close> into the data file;
  \<open>WriteFailed\<close> is an attempt that raised \<^verbatim>\<open>IOError\<close>.
\<close>

datatype event =
    Prompt string
  | Print string
  | PrintField string json
  | Write "expense list"
  | WriteFailed

text \<open>\<^verbatim>\<open>save_expenses\<close>; \<open>ok\<close> says whether opening and writing the file succeeds.\<close>

definition save_expenses :: "expense list \<Rightarrow> bool \<Rightarrow> event list" where
  "save_expenses expenses ok =
     (if ok then [Write expenses]
      else [WriteFailed, Print ''Error: Unable to save expenses.''])"

subsection \<open>Deleting by id\<close>

text \<open>
  \<^verbatim>\<open>delete_expense\<close>: \<open>inp\<close> is the line the user types at the prompt. The list is
  replaced in place by the records whose \<^verbatim>\<open>e.get("id")\<close> differs from the stripped input;
  the new list and the events are returned.
\<close>

definition delete_expense :: "expense list \<Rightarrow> string \<Rightarrow> bool \<Rightarrow> expense list \<times> event list" where
  "delete_expense expenses inp ok =
     (let eid = strip inp;
          before = length expenses;
          expenses' = filter (\<lambda>e. get e ''id'' \<noteq> Some (JStr eid)) expenses
      in if length expenses' < before
         then (expenses', Prompt ''Enter the ID of the expense to delete: ''
                 # save_expenses expenses' ok @ [Print ''Expense deleted.''])
         else (expenses', [Prompt ''Enter the ID of the expense to delete: '',
                 Print ''ID not found. No changes made.'']))"


subsection \<open>Loading the data file\<close>

text \<open>
  The data file is either missing, or \<^verbatim>\<open>open\<close> and \<^verbatim>\<open>json.load\<close> end in one way on it:
  they raise an exception or return the parsed value.
\<close>

datatype data_file = Missing | Reads "pyexn + json"

definition load_warning :: string where
  "load_warning =
     ''Warning: Could not read JSON file or file is corrupted. Starting with empty ledger.''"

text \<open>
  \<^verbatim>\<open>load_expenses\<close> returns the list and what it printed; an exception other than
  \<^verbatim>\<open>json.JSONDecodeError\<close> and \<^verbatim>\<open>IOError\<close> is not caught.
\<close>

fun load_expenses :: "data_file \<Rightarrow> pyexn + (json list \<times> event list)" where
  "load_expenses Missing = Inr ([], [])"
| "load_expenses (Reads (Inr (JList data))) = Inr (data, [])"
| "load_expenses (Reads (Inr data)) = Inr ([], [])"
| "load_expenses (Reads (Inl x)) =
     (if x = JSONDecodeError \<or> x = IOError then Inr ([], [Print load_warning]) else Inl x)"

subsection \<open>Creating a record\<close>

text \<open>
  What the surroundings give \<^verbatim>\<open>add_expense_interactive\<close>: the string of a fresh
  \<^verbatim>\<open>uuid.uuid4()\<close>, the current time as \<^verbatim>\<open>isoformat(timespec="seconds")\<close> prints it, the
  two date parsers (\<open>None\<close> for a \<open>ValueError\<close>, otherwise the parsed date printed by
  \<^verbatim>\<open>isoformat(timespec="seconds")\<close>), and whether the data file can be written.
\<close>

record env =
  uuid4 :: string
  now :: string
  fromisoformat :: "string \<Rightarrow> string option"
  strptime_ymd :: "string \<Rightarrow> string option"
  writable :: bool

definition make_expense ::
    "env \<Rightarrow> pyfloat \<Rightarrow> string \<Rightarrow> string \<Rightarrow> string option \<Rightarrow> expense" where
  "make_expense env amount category note date_iso =
     [(''id'', JStr (uuid4 env)),
      (''amount'', JFloat (py_round2 amount)),
      (''category'', JStr (strip category)),
      (''note'', JStr (strip note)),
      (''date'', JStr (case date_iso of
                         None \<Rightarrow> now env
                       | Some d \<Rightarrow> if d = [] then now env else d))]"

definition amount_prompt :: string where
  "amount_prompt = ''Enter amount (numbers only, e.g. 250.50): ''"

definition category_prompt :: string where
  "category_prompt = ''Enter category (e.g. Food, Travel, Bills): ''"

definition note_prompt :: string where
  "note_prompt = ''Optional note: ''"

definition date_prompt :: string where
  "date_prompt = ''Date (YYYY-MM-DD) or press Enter for today: ''"

text \<open>
  The loop that asks for the amount until \<^verbatim>\<open>float\<close> accepts a line. The lines are what
  the user types; \<^verbatim>\<open>input\<close> raises \<open>EOFError\<close> when there is none left. The result is the
  amount and the lines not yet read.
\<close>

fun read_amount :: "string list \<Rightarrow> event list \<times> (pyexn + (pyfloat \<times> string list))" where
  "read_amount [] = ([Prompt amount_prompt], Inl EOFError)"
| "read_amount (l # ls) =
     (case py_float (JStr (strip l)) of
        Inr amount \<Rightarrow> ([Prompt amount_prompt], Inr (amount, ls))
      | Inl x \<Rightarrow>
          if x = ValueError
          then (let (ev, r) = read_amount ls
                in (Prompt amount_prompt # Print ''Invalid amount. Try again.'' # ev, r))
          else ([Prompt amount_prompt], Inl x))"

text \<open>The date typed by the user: its ISO form, or \<open>None\<close> with the warning printed.\<close>

definition parse_date :: "env \<Rightarrow> string \<Rightarrow> string option \<times> event list" where
  "parse_date env date_input =
     (if date_input = [] then (None, [])
      else case fromisoformat env date_input of
             Some t \<Rightarrow> (Some t, [])
           | None \<Rightarrow>
               (case strptime_ymd env date_input of
                  Some t \<Rightarrow> (Some t, [])
                | None \<Rightarrow> (None, [Print ''Invalid date format. Using current date/time.''])))"

text \<open>
  \<^verbatim>\<open>add_expense_interactive\<close>: the new list, the events, and the exception that ended the
  call, if one did.
\<close>

definition add_expense_interactive ::
    "env \<Rightarrow> expense list \<Rightarrow> string list \<Rightarrow> expense list \<times> event list \<times> pyexn option" where
  "add_expense_interactive env expenses lines =
     (case read_amount lines of
        (ev, Inl x) \<Rightarrow> (expenses, ev, Some x)
      | (ev, Inr (amount, [])) \<Rightarrow>
          (expenses, ev @ [Prompt category_prompt], Some EOFError)
      | (ev, Inr (amount, [c])) \<Rightarrow>
          (expenses, ev @ [Prompt category_prompt, Prompt note_prompt], Some EOFError)
      | (ev, Inr (amount, [c, n])) \<Rightarrow>
          (expenses, ev @ [Prompt category_prompt, Prompt note_prompt, Prompt date_prompt],
           Some EOFError)
      | (ev, Inr (amount, c # n # d # rest)) \<Rightarrow>
          (let category = (if strip c = [] then ''Uncategorized'' else strip c);
               note = strip n;
               (date_iso, warn) = parse_date env (strip d);
               expense = make_expense env amount category note date_iso;
               expenses' = expenses @ [expense]
           in (expenses',
               ev @ [Prompt category_prompt, Prompt note_prompt, Prompt date_prompt] @ warn
                  @ save_expenses expenses' (writable env)
                  @ [Print (''Expense added!'' @ [CHR 0x0A])],
               None)))"

subsection \<open>The data file after a save\<close>


subsection \<open>Totals\<close>

text \<open>
  The built-in \<^verbatim>\<open>sum\<close> over floats, started at the integer \<open>0\<close>. Up to CPython 3.11 it
  adds from left to right; from 3.12 on it also carries Neumaier's compensation term and
  adds it at the end. \<open>compensated\<close> says which interpreter runs the program.
\<close>

fun neumaier :: "pyfloat \<Rightarrow> pyfloat \<Rightarrow> pyfloat list \<Rightarrow> pyfloat" where
  "neumaier f c [] = (if \<not> feq c (Finite 0) \<and> isfinite c then fadd f c else f)"
| "neumaier f c (x # xs) =
     (let t = fadd f x
      in neumaier t
           (fadd c (if fle (fabs x) (fabs f) then fadd (fsub f t) x else fadd (fsub x t) f))
           xs)"

definition py_sum :: "bool \<Rightarrow> pyfloat list \<Rightarrow> json" where
  "py_sum compensated xs = (case xs of
       [] \<Rightarrow> JInt 0
     | x # r \<Rightarrow>
         JFloat (if compensated then neumaier (fadd (Finite 0) x) (Finite 0) r
                 else foldl fadd (fadd (Finite 0) x) r))"

text \<open>\<^verbatim>\<open>float(e.get("amount", 0))\<close>.\<close>

definition amount_value :: "expense \<Rightarrow> pyexn + pyfloat" where
  "amount_value e = py_float (get_default e ''amount'' (JInt 0))"

text \<open>\<^verbatim>\<open>get_total_spending\<close>: the generator stops at the first \<^verbatim>\<open>float\<close> that raises.\<close>

definition get_total_spending :: "bool \<Rightarrow> expense list \<Rightarrow> pyexn + json" where
  "get_total_spending compensated expenses =
     (case collect (map amount_value expenses) of
        Inl x \<Rightarrow> Inl x
      | Inr amounts \<Rightarrow> Inr (py_sum compensated amounts))"

text \<open>
  A Python dictionary with string keys, in insertion order. \<open>dict_set\<close> is
  \<^verbatim>\<open>d[k] = v\<close>: a key already there keeps its place.
\<close>

fun dict_set :: "(string \<times> 'v) list \<Rightarrow> string \<Rightarrow> 'v \<Rightarrow> (string \<times> 'v) list" where
  "dict_set [] k v = [(k, v)]"
| "dict_set ((k', v') # d) k v = (if k' = k then (k, v) # d else (k', v') # dict_set d k v)"

text \<open>The loop of \<^verbatim>\<open>spending_by_category\<close>, from the dictionary built so far.\<close>

fun summarize :: "(string \<times> pyfloat) list \<Rightarrow> expense list \<Rightarrow> pyexn + (string \<times> pyfloat) list" where
  "summarize summary [] = Inr summary"
| "summarize summary (e # es) =
     (case get_default e ''category'' (JStr ''Uncategorized'') of
        JStr cat \<Rightarrow>
          (case py_float (get_default e ''amount'' (JFloat (Finite 0))) of
             Inl x \<Rightarrow> Inl x
           | Inr a \<Rightarrow>
               summarize
                 (dict_set summary cat
                    (fadd (case map_of summary cat of None \<Rightarrow> Finite 0 | Some v \<Rightarrow> v) a))
                 es)
      | JList xs \<Rightarrow> Inl TypeError
      | JObj kvs \<Rightarrow> Inl TypeError
      | _ \<Rightarrow> Inl OutsideModel)"

definition spending_by_category :: "expense list \<Rightarrow> pyexn + (string \<times> pyfloat) list" where
  "spending_by_category expenses =
     (case summarize [] expenses of
        Inl x \<Rightarrow> Inl x
      | Inr summary \<Rightarrow> Inr (map (\<lambda>(k, v). (k, py_round2 v)) summary))"

subsection \<open>Searching\<close>

text \<open>\<^verbatim>\<open>e.get(key, "").lower()\<close>: only a string has the method.\<close>

definition lower_field :: "expense \<Rightarrow> string \<Rightarrow> pyexn + string" where
  "lower_field e k = (case get_default e k (JStr []) of
       JStr s \<Rightarrow> Inr (lower s)
     | _ \<Rightarrow> Inl AttributeError)"

text \<open>The condition of the comprehension; \<^verbatim>\<open>or\<close> stops at the first field that matches.\<close>

definition matches :: "string \<Rightarrow> expense \<Rightarrow> pyexn + bool" where
  "matches keyword e =
     (case lower_field e ''category'' of
        Inl x \<Rightarrow> Inl x
      | Inr c \<Rightarrow>
          if is_substring keyword c then Inr True
          else (case lower_field e ''note'' of
                  Inl x \<Rightarrow> Inl x
                | Inr n \<Rightarrow>
                    if is_substring keyword n then Inr True
                    else (case lower_field e ''date'' of
                            Inl x \<Rightarrow> Inl x
                          | Inr d \<Rightarrow> Inr (is_substring keyword d))))"

fun filter_matches :: "string \<Rightarrow> expense list \<Rightarrow> pyexn + expense list" where
  "filter_matches keyword [] = Inr []"
| "filter_matches keyword (e # es) =
     (case matches keyword e of
        Inl x \<Rightarrow> Inl x
      | Inr b \<Rightarrow>
          (case filter_matches keyword es of
             Inl x \<Rightarrow> Inl x
           | Inr rs \<Rightarrow> Inr (if b then e # rs else rs)))"

text \<open>
  \<^verbatim>\<open>sorted(results, key=lambda x: x.get("date", ""), reverse=True)\<close>. Strings compare
  character by character; the sort is stable, and with \<^verbatim>\<open>reverse=True\<close> records with
  equal dates keep the order they had.
\<close>

definition date_key :: "expense \<Rightarrow> string option" where
  "date_key e = (case get_default e ''date'' (JStr []) of JStr s \<Rightarrow> Some s | _ \<Rightarrow> None)"

definition sort_by_date_desc :: "expense list \<Rightarrow> pyexn + expense list" where
  "sort_by_date_desc es =
     (if length es \<le> 1 then Inr es
      else if list_all (\<lambda>e. date_key e \<noteq> None) es
      then Inr (rev (sort_key (\<lambda>e. the (date_key e)) (rev es)))
      else Inl OutsideModel)"

text \<open>The records \<^verbatim>\<open>search_expenses\<close> goes on to print, in the order it prints them.\<close>

definition search_results :: "expense list \<Rightarrow> string \<Rightarrow> pyexn + expense list" where
  "search_results expenses inp =
     (case filter_matches (lower (strip inp)) expenses of
        Inl x \<Rightarrow> Inl x
      | Inr results \<Rightarrow> if results = [] then Inr [] else sort_by_date_desc results)"

text \<open>Python's truth value of a JSON value, as \<^verbatim>\<open>if exp.get("note")\<close> takes it.\<close>

fun truthy :: "json \<Rightarrow> bool" where
  "truthy JNull = False"
| "truthy (JBool b) = b"
| "truthy (JInt i) = (i \<noteq> 0)"
| "truthy (JFloat x) = (\<not> feq x (Finite 0))"
| "truthy (JStr s) = (s \<noteq> [])"
| "truthy (JList xs) = (xs \<noteq> [])"
| "truthy (JObj kvs) = (kvs \<noteq> [])"

text \<open>The lines \<^verbatim>\<open>exp['key']\<close> prints, up to the first missing key.\<close>

fun print_fields :: "expense \<Rightarrow> (string \<times> string) list \<Rightarrow> event list \<times> pyexn option" where
  "print_fields e [] = ([], None)"
| "print_fields e ((label, key) # r) =
     (case get e key of
        None \<Rightarrow> ([], Some KeyError)
      | Some v \<Rightarrow> (let (ev, x) = print_fields e r in (PrintField label v # ev, x)))"

definition print_expense :: "expense \<Rightarrow> event list \<times> pyexn option" where
  "print_expense e =
     (case print_fields e
             [(''ID'', ''id''), (''Date'', ''date''), (''Category'', ''category''),
              (''Amount'', ''amount'')] of
        (ev, Some x) \<Rightarrow> (ev, Some x)
      | (ev, None) \<Rightarrow>
          (ev @ (case get e ''note'' of
                   None \<Rightarrow> []
                 | Some v \<Rightarrow> if truthy v then [PrintField ''Note'' v] else [])
              @ [Print (replicate 40 CHR ''-'')],
           None))"

fun print_all :: "expense list \<Rightarrow> event list \<times> pyexn option" where
  "print_all [] = ([], None)"
| "print_all (e # es) =
     (case print_expense e of
        (ev, Some x) \<Rightarrow> (ev, Some x)
      | (ev, None) \<Rightarrow> (let (ev', x) = print_all es in (ev @ ev', x)))"

definition search_prompt :: string where
  "search_prompt = ''Enter search keyword (category/note/date fragment): ''"

definition search_expenses :: "expense list \<Rightarrow> string \<Rightarrow> event list \<times> pyexn option" where
  "search_expenses expenses inp =
     (case search_results expenses inp of
        Inl x \<Rightarrow> ([Prompt search_prompt], Some x)
      | Inr [] \<Rightarrow> ([Prompt search_prompt, Print ''No matching expenses found.''], None)
      | Inr (r # rs) \<Rightarrow>
          (let (ev, x) = print_all (r # rs) in (Prompt search_prompt # ev, x)))"

section \<open>Notions used to state the properties\<close>

text \<open>The ids of the records of a ledger that have one, in ledger order.\<close>

definition ids :: "expense list \<Rightarrow> json list" where
  "ids es = List.map_filter (\<lambda>e. get e ''id'') es"

text \<open>
  The record \<open>e\<close> with the value \<open>v\<close> put under the key \<open>k\<close> when \<open>e\<close> has no such key:
  what "the missing field counts as \<open>v\<close>" is measured against.
\<close>

definition with_default :: "string \<Rightarrow> json \<Rightarrow> expense \<Rightarrow> expense" where
  "with_default k v e = (if get e k = None then e @ [(k, v)] else e)"

text \<open>The category a record is counted under, when it is a string or missing.\<close>

definition category_key :: "expense \<Rightarrow> string" where
  "category_key e = (case get_default e ''category'' (JStr ''Uncategorized'') of
       JStr s \<Rightarrow> s
     | _ \<Rightarrow> [])"

text \<open>
  A record whose amount, when it has one, is a value \<^verbatim>\<open>float\<close> accepts, and whose category,
  when it has one, is a string. Any key may be missing.
\<close>

definition well_typed :: "expense \<Rightarrow> bool" where
  "well_typed e =
     ((case get e ''amount'' of
         None \<Rightarrow> True
       | Some v \<Rightarrow> (case py_float v of Inr a \<Rightarrow> True | Inl x \<Rightarrow> False)) \<and>
      (case get e ''category'' of
         None \<Rightarrow> True
       | Some (JStr s) \<Rightarrow> True
       | Some _ \<Rightarrow> False))"

text \<open>The amount of a record as a float, \<open>0.0\<close> when it has none.\<close>

definition amount_of :: "expense \<Rightarrow> pyfloat" where
  "amount_of e = (case amount_value e of Inr a \<Rightarrow> a | Inl x \<Rightarrow> Finite 0)"

text \<open>\<^verbatim>\<open>sum(by_cat.values())\<close>: the sum over the subtotals of a category summary.\<close>

definition sum_of_subtotals :: "bool \<Rightarrow> (string \<times> pyfloat) list \<Rightarrow> json" where
  "sum_of_subtotals compensated summary = py_sum compensated (map snd summary)"

text \<open>
  The words of the description of the search, to compare \<^verbatim>\<open>search_expenses\<close> with:
  \<open>contains_ci k s\<close> says that \<open>s\<close> contains \<open>k\<close> as a substring when case is ignored;
  \<open>text_field e k\<close> is the text under \<open>k\<close>, empty when the key is missing; \<open>hit k e\<close> says
  that the category, the note or the date of \<open>e\<close> contains the keyword.
\<close>

definition contains_ci :: "string \<Rightarrow> string \<Rightarrow> bool" where
  "contains_ci k s = (\<exists>p t. lower s = p @ lower k @ t)"

definition text_field :: "expense \<Rightarrow> string \<Rightarrow> string" where
  "text_field e k = (case get e k of Some (JStr s) \<Rightarrow> s | _ \<Rightarrow> [])"

definition hit :: "string \<Rightarrow> expense \<Rightarrow> bool" where
  "hit k e = (contains_ci k (text_field e ''category'') \<or> contains_ci k (text_field e ''note'')
              \<or> contains_ci k (text_field e ''date''))"

text \<open>A record whose category, note and date are strings where it has them.\<close>

definition is_text :: "json option \<Rightarrow> bool" where
  "is_text v = (case v of None \<Rightarrow> True | Some (JStr s) \<Rightarrow> True | Some _ \<Rightarrow> False)"

definition searchable :: "expense \<Rightarrow> bool" where
  "searchable e =
     (is_text (get e ''category'') \<and> is_text (get e ''note'') \<and> is_text (get e ''date''))"

text \<open>A record that has the four keys \<^verbatim>\<open>print_expense\<close> reads with \<^verbatim>\<open>exp[key]\<close>.\<close>

definition printable :: "expense \<Rightarrow> bool" where
  "printable e = (get e ''id'' \<noteq> None \<and> get e ''date'' \<noteq> None \<and> get e ''category'' \<noteq> None
                  \<and> get e ''amount'' \<noteq> None)"

text \<open>What \<^verbatim>\<open>print_expense\<close> prints for the records of a list, one after the other.\<close>

definition shown :: "expense list \<Rightarrow> event list" where
  "shown rs = concat (map (\<lambda>e. fst (print_expense e)) rs)"




section \<open>Sample ledgers\<close>

text \<open>Concrete records and ledgers on which the theorems below are exercised.\<close>

definition r1 :: expense where
  "r1 = [(''id'', JStr ''a1''), (''category'', JStr ''Food'')]"

definition r2 :: expense where
  "r2 = [(''id'', JStr ''b2''), (''category'', JStr ''Travel'')]"

definition r3 :: expense where
  "r3 = [(''id'', JStr ''a1''), (''category'', JStr ''Bills'')]"

text \<open>
  Surroundings for the sample runs: \<^verbatim>\<open>fromisoformat\<close> accepts the one date used in them.
\<close>

definition env0 :: env where
  "env0 = \<lparr>uuid4 = ''3f2b8c1e-0d4a-4e6f-9a7b-5c1d2e3f4a5b'',
           now = ''2024-01-02T10:20:30'',
           fromisoformat =
             (\<lambda>s. if s = ''2024-01-01'' then Some ''2024-01-01T00:00:00'' else None),
           strptime_ymd = (\<lambda>s. None),
           writable = True\<rparr>"

text \<open>
  Three records as they can stand in a data file: an amount written as a float (the
  float nearest to 10.01), an amount written as an integer, and a record with neither
  amount nor category.
\<close>

definition t1 :: expense where
  "t1 = [(''id'', JStr ''t1''), (''amount'', JFloat (Finite (5635129033747333 / 562949953421312))),
         (''category'', JStr ''Food''), (''note'', JStr ''lunch''),
         (''date'', JStr ''2024-01-01T00:00:00'')]"

definition t2 :: expense where
  "t2 = [(''id'', JStr ''t2''), (''amount'', JInt 5), (''category'', JStr ''Food''),
         (''note'', JStr ''''), (''date'', JStr ''2024-01-02T00:00:00'')]"

definition t3 :: expense where
  "t3 = [(''id'', JStr ''t3''), (''note'', JStr ''cash'')]"

text \<open>
  A record with the amount 0.125, as a data file can hold it, and two records with the
  amounts 0.1 and 0.2 (the floats nearest to them), as \<^verbatim>\<open>make_expense\<close> builds them.
\<close>

definition q1 :: expense where
  "q1 = [(''id'', JStr ''q1''), (''amount'', JFloat (Finite (1 / 8))),
         (''category'', JStr ''Food''), (''note'', JStr ''''),
         (''date'', JStr ''2024-01-01T00:00:00'')]"

definition p1 :: expense where
  "p1 = [(''id'', JStr ''p1''),
         (''amount'', JFloat (Finite (3602879701896397 / 36028797018963968))),
         (''category'', JStr ''Food''), (''note'', JStr ''''),
         (''date'', JStr ''2024-01-01T00:00:00'')]"

definition p2 :: expense where
  "p2 = [(''id'', JStr ''p2''),
         (''amount'', JFloat (Finite (3602879701896397 / 18014398509481984))),
         (''category'', JStr ''Food''), (''note'', JStr ''''),
         (''date'', JStr ''2024-01-02T00:00:00'')]"

text \<open>Three records for the search: two of one day, and one of the day after.\<close>

definition s1 :: expense where
  "s1 = [(''id'', JStr ''s1''), (''amount'', JFloat (Finite 12)),
         (''category'', JStr ''Travel''), (''note'', JStr ''train''),
         (''date'', JStr ''2024-01-01T00:00:00'')]"

definition s2 :: expense where
  "s2 = [(''id'', JStr ''s2''), (''amount'', JFloat (Finite 5)),
         (''category'', JStr ''Food''), (''note'', JStr ''snack before TRAVELLING''),
         (''date'', JStr ''2024-01-02T00:00:00'')]"

definition s3 :: expense where
  "s3 = [(''id'', JStr ''s3''), (''amount'', JFloat (Finite 7)),
         (''category'', JStr ''Food''), (''note'', JStr ''''),
         (''date'', JStr ''2024-01-01T00:00:00'')]"


section \<open>Properties\<close>

subsection \<open>Deleting by id\<close>

lemma ids_Cons:
  "ids (x # xs) = (case get x ''id'' of None \<Rightarrow> ids xs | Some v \<Rightarrow> v # ids xs)"
  by (simp add: ids_def split: option.splits)

lemma in_ids: "e \<in> set es \<Longrightarrow> get e ''id'' = Some v \<Longrightarrow> v \<in> set (ids es)"
  by (induction es) (auto simp: ids_Cons split: option.splits)

lemma filter_unique_id:
  "distinct (ids es) \<Longrightarrow> e \<in> set es \<Longrightarrow> get e ''id'' = Some v \<Longrightarrow>
   filter (\<lambda>x. get x ''id'' \<noteq> Some v) es = remove1 e es"
proof (induction es)
  case Nil
  then show ?case by simp
next
  case (Cons x xs)
  show ?case
  proof (cases "x = e")
    case True
    with Cons.prems have "v \<notin> set (ids xs)"
      by (simp add: ids_Cons)
    then have "\<forall>y \<in> set xs. get y ''id'' \<noteq> Some v"
      using in_ids by blast
    then have "filter (\<lambda>x. get x ''id'' \<noteq> Some v) xs = xs"
      by (simp add: filter_id_conv)
    with True Cons.prems show ?thesis by simp
  next
    case False
    with Cons.prems have in_xs: "e \<in> set xs" by simp
    with Cons.prems have v_in: "v \<in> set (ids xs)"
      using in_ids by blast
    have "get x ''id'' \<noteq> Some v"
    proof
      assume "get x ''id'' = Some v"
      with Cons.prems(1) v_in show False by (simp add: ids_Cons)
    qed
    moreover have "distinct (ids xs)"
      using Cons.prems(1) by (cases "get x ''id''") (simp_all add: ids_Cons)
    ultimately show ?thesis
      using Cons.IH in_xs Cons.prems(3) False by simp
  qed
qed

text \<open>
  Claim C1. In a ledger whose ids are pairwise different (\<open>ids es\<close> lists the ids of the
  records that have one), deleting the id of a record \<open>e\<close> leaves the ledger without that one
  record: the result is \<open>remove1 e es\<close>, one record shorter, \<open>e\<close> is gone and every other
  record is still there. When no record has the typed id, the ledger is returned as it
  was, nothing is written to the data file, and the only output after the prompt is
  "ID not found. No changes made.".
\<close>

theorem delete_expense_by_id:
  assumes "distinct (ids es)"
  shows "(\<forall>e \<in> set es. get e ''id'' = Some (JStr (strip inp)) \<longrightarrow>
            fst (delete_expense es inp ok) = remove1 e es \<and>
            length (fst (delete_expense es inp ok)) + 1 = length es \<and>
            e \<notin> set (fst (delete_expense es inp ok)) \<and>
            (\<forall>e' \<in> set es. e' \<noteq> e \<longrightarrow> e' \<in> set (fst (delete_expense es inp ok)))) \<and>
         ((\<forall>e \<in> set es. get e ''id'' \<noteq> Some (JStr (strip inp))) \<longrightarrow>
            delete_expense es inp ok =
              (es, [Prompt ''Enter the ID of the expense to delete: '',
                    Print ''ID not found. No changes made.'']))"
proof (intro conjI ballI impI)
  fix e
  assume e: "e \<in> set es" "get e ''id'' = Some (JStr (strip inp))"
  have f: "filter (\<lambda>x. get x ''id'' \<noteq> Some (JStr (strip inp))) es = remove1 e es"
    using filter_unique_id [OF assms e] .
  then show r: "fst (delete_expense es inp ok) = remove1 e es"
    by (simp add: delete_expense_def Let_def)
  from e(1) show "length (fst (delete_expense es inp ok)) + 1 = length es"
    by (simp add: r length_remove1) (cases es, simp_all)
  have "e \<notin> set (filter (\<lambda>x. get x ''id'' \<noteq> Some (JStr (strip inp))) es)"
    using e(2) by simp
  with f r show "e \<notin> set (fst (delete_expense es inp ok))" by simp
  fix e' assume "e' \<in> set es" "e' \<noteq> e"
  then show "e' \<in> set (fst (delete_expense es inp ok))"
    by (simp add: r)
next
  assume "\<forall>e \<in> set es. get e ''id'' \<noteq> Some (JStr (strip inp))"
  then have "filter (\<lambda>x. get x ''id'' \<noteq> Some (JStr (strip inp))) es = es"
    by (simp add: filter_id_conv)
  then show "delete_expense es inp ok =
              (es, [Prompt ''Enter the ID of the expense to delete: '',
                    Print ''ID not found. No changes made.''])"
    by (simp add: delete_expense_def Let_def)
qed

text \<open>
  The theorem at the ledger \<open>[r1, r2]\<close>: typing the id of \<open>r2\<close> (with blanks around it)
  leaves \<open>[r1]\<close>, which is written to the file; typing an id no record has changes
  nothing and writes nothing.
\<close>

theorem delete_expense_by_id_witness:
  "distinct (ids [r1, r2]) \<and>
   delete_expense [r1, r2] '' b2 '' True =
     ([r1], [Prompt ''Enter the ID of the expense to delete: '', Write [r1],
             Print ''Expense deleted.'']) \<and>
   delete_expense [r1, r2] ''zz'' True =
     ([r1, r2], [Prompt ''Enter the ID of the expense to delete: '',
                 Print ''ID not found. No changes made.''])"
proof -
  have d: "distinct (ids [r1, r2])"
    by (simp add: ids_Cons get_def r1_def r2_def ids_def)
  have s1: "strip '' b2 '' = ''b2''" and s2: "strip ''zz'' = ''zz''"
    by (simp_all add: strip_def isspace_def)
  have g: "get r2 ''id'' = Some (JStr ''b2'')" "get r1 ''id'' = Some (JStr ''a1'')"
    by (simp_all add: get_def r1_def r2_def)
  have ne: "r1 \<noteq> r2" by (simp add: r1_def r2_def)
  from delete_expense_by_id [OF d, of "'' b2 ''" True] g s1 ne
  have "fst (delete_expense [r1, r2] '' b2 '' True) = [r1]"
    by simp
  moreover have "snd (delete_expense [r1, r2] '' b2 '' True) =
      [Prompt ''Enter the ID of the expense to delete: '', Write [r1],
       Print ''Expense deleted.'']"
    by (simp add: delete_expense_def Let_def s1 g save_expenses_def)
  ultimately have a: "delete_expense [r1, r2] '' b2 '' True =
      ([r1], [Prompt ''Enter the ID of the expense to delete: '', Write [r1],
              Print ''Expense deleted.''])"
    by (simp add: prod_eq_iff)
  from delete_expense_by_id [OF d, of "''zz''" True] g s2
  have b: "delete_expense [r1, r2] ''zz'' True =
      ([r1, r2], [Prompt ''Enter the ID of the expense to delete: '',
                  Print ''ID not found. No changes made.''])"
    by simp
  from d a b show ?thesis by simp
qed

text \<open>
  Claim C9. Deleting an id removes every record that has it: the result is the ledger
  without the records of that id, in their order; its length and the number of records
  of that id add up to the old length; no record of the result has the id.
\<close>

theorem delete_expense_removes_all:
  "fst (delete_expense es inp ok) =
     filter (\<lambda>e. get e ''id'' \<noteq> Some (JStr (strip inp))) es \<and>
   length (fst (delete_expense es inp ok)) +
     length (filter (\<lambda>e. get e ''id'' = Some (JStr (strip inp))) es) = length es \<and>
   (\<forall>e \<in> set (fst (delete_expense es inp ok)). get e ''id'' \<noteq> Some (JStr (strip inp)))"
proof -
  have r: "fst (delete_expense es inp ok) =
      filter (\<lambda>e. get e ''id'' \<noteq> Some (JStr (strip inp))) es"
    by (simp add: delete_expense_def Let_def)
  have "length (filter (\<lambda>e. get e ''id'' = Some (JStr (strip inp))) es) +
        length (filter (\<lambda>e. \<not> get e ''id'' = Some (JStr (strip inp))) es) = length es"
    by (rule sum_length_filter_compl)
  with r show ?thesis by simp
qed

text \<open>
  The theorem at \<open>[r1, r2, r3]\<close>, where \<open>r1\<close> and \<open>r3\<close> share the id \<open>a1\<close>: both go, and
  the ledger is two records shorter.
\<close>

theorem delete_expense_removes_all_witness:
  "length (filter (\<lambda>e. get e ''id'' = Some (JStr (strip ''a1''))) [r1, r2, r3]) = 2 \<and>
   fst (delete_expense [r1, r2, r3] ''a1'' True) = [r2] \<and>
   length (fst (delete_expense [r1, r2, r3] ''a1'' True)) + 2 = length [r1, r2, r3]"
proof -
  have s: "strip ''a1'' = ''a1''"
    by (simp add: strip_def isspace_def)
  have g: "get r1 ''id'' = Some (JStr ''a1'')" "get r2 ''id'' = Some (JStr ''b2'')"
      "get r3 ''id'' = Some (JStr ''a1'')"
    by (simp_all add: get_def r1_def r2_def r3_def)
  from delete_expense_removes_all [of "[r1, r2, r3]" "''a1''" True] s g
  show ?thesis by simp
qed

subsection \<open>Loading the data file\<close>

text \<open>
  Claim C3, as the code has it. A missing file gives the empty ledger and no output. When
  reading raises \<open>JSONDecodeError\<close> (the text is not JSON) or \<open>IOError\<close>, the warning is
  printed and the ledger is empty. When the text is JSON but not a list, the ledger is
  empty and nothing is printed. A JSON list is returned as it is.
\<close>

theorem load_expenses_cases:
  "load_expenses Missing = Inr ([], []) \<and>
   load_expenses (Reads (Inl JSONDecodeError)) = Inr ([], [Print load_warning]) \<and>
   load_expenses (Reads (Inl IOError)) = Inr ([], [Print load_warning]) \<and>
   (\<forall>v. (\<forall>xs. v \<noteq> JList xs) \<longrightarrow> load_expenses (Reads (Inr v)) = Inr ([], [])) \<and>
   (\<forall>xs. load_expenses (Reads (Inr (JList xs))) = Inr (xs, []))"
proof -
  have "load_expenses (Reads (Inr v)) = Inr ([], [])" if "\<forall>xs. v \<noteq> JList xs" for v
    using that by (cases v) simp_all
  then show ?thesis by simp
qed

text \<open>The theorem at a file that holds one JSON object, and at one that holds a list.\<close>

theorem load_expenses_cases_witness:
  "(\<forall>xs. JObj [(''id'', JStr ''a1'')] \<noteq> JList xs) \<and>
   load_expenses (Reads (Inr (JObj [(''id'', JStr ''a1'')]))) = Inr ([], []) \<and>
   load_expenses (Reads (Inr (JList [JObj [(''id'', JStr ''a1'')]]))) =
     Inr ([JObj [(''id'', JStr ''a1'')]], [])"
  using load_expenses_cases by simp

text \<open>
  Claim C3 as stated asks for the warning whenever the content is malformed. A file that
  holds the JSON string \<^verbatim>\<open>"not a list"\<close> parses to a value that is not a list: the ledger
  is empty, and no warning is printed.
\<close>

theorem load_expenses_non_list_counterexample:
  "load_expenses (Reads (Inr (JStr ''not a list''))) = Inr ([], []) \<and>
   \<not> (\<exists>data. load_expenses (Reads (Inr (JStr ''not a list''))) =
                 Inr (data, [Print load_warning]))"
  by simp

subsection \<open>Creating a record\<close>

lemma strip_Uncategorized: "strip ''Uncategorized'' = ''Uncategorized''"
  by (simp add: strip_def isspace_def)

text \<open>
  Claim C6, as the code has it. When the amount has been read (\<open>read_amount\<close> returns an
  amount and the lines that follow: category, note, date) and the category line is blank
  after stripping, \<^verbatim>\<open>add_expense_interactive\<close> completes and appends one record, whose
  category is "Uncategorized". The default is put in by \<^verbatim>\<open>add_expense_interactive\<close>
  before it calls \<^verbatim>\<open>make_expense\<close>; \<^verbatim>\<open>make_expense\<close> applies no default: the category of the
  record it builds is the stripped category it is given, whatever that is.
\<close>

theorem category_default_applied_by_caller:
  assumes "read_amount lines = (ev, Inr (amount, c # n # d # rest))"
    and "strip c = []"
  shows "(\<exists>e evs. add_expense_interactive env expenses lines = (expenses @ [e], evs, None) \<and>
            get e ''category'' = Some (JStr ''Uncategorized'')) \<and>
         (\<forall>a category note date_iso.
            get (make_expense env a category note date_iso) ''category'' =
              Some (JStr (strip category)))"
  using assms
  by (simp add: add_expense_interactive_def Let_def make_expense_def get_def
      strip_Uncategorized split: prod.splits)

lemma float_of_str_12_5: "float_of_str ''12.5'' = Inr (Finite (25 / 2))"
  by code_simp

lemma read_amount_sample:
  "read_amount [''abc'', ''12.5'', ''   '', '' lunch '', ''''] =
     ([Prompt amount_prompt, Print ''Invalid amount. Try again.'', Prompt amount_prompt],
      Inr (Finite (25 / 2), [''   '', '' lunch '', '''']))"
proof -
  have a: "float_of_str ''abc'' = Inl ValueError"
    by code_simp
  have s: "strip ''abc'' = ''abc''" "strip ''12.5'' = ''12.5''"
    by (simp_all add: strip_def isspace_def)
  show ?thesis
    by (simp add: s a float_of_str_12_5)
qed

text \<open>
  The theorem on a run: a line that is no number, the amount 12.5, a category of three
  blanks, a note, and no date; and on \<^verbatim>\<open>make_expense\<close> called with that category.
\<close>

theorem category_default_applied_by_caller_witness:
  "strip ''   '' = [] \<and>
   (\<exists>e evs. add_expense_interactive env0 [] [''abc'', ''12.5'', ''   '', '' lunch '', ''''] =
        ([e], evs, None) \<and>
      get e ''category'' = Some (JStr ''Uncategorized'')) \<and>
   get (make_expense env0 (Finite (25 / 2)) ''   '' ''lunch'' None) ''category'' =
     Some (JStr (strip ''   ''))"
proof -
  have b: "strip ''   '' = []"
    by (simp add: strip_def isspace_def)
  note t = category_default_applied_by_caller [OF read_amount_sample b, of env0 "[]",
      unfolded append_Nil]
  from t have r: "\<exists>e evs.
      add_expense_interactive env0 [] [''abc'', ''12.5'', ''   '', '' lunch '', ''''] =
        ([e], evs, None) \<and>
      get e ''category'' = Some (JStr ''Uncategorized'')"
    by (rule conjunct1)
  from t have "\<forall>a category note date_iso.
      get (make_expense env0 a category note date_iso) ''category'' =
        Some (JStr (strip category))"
    by (rule conjunct2)
  then have m: "get (make_expense env0 (Finite (25 / 2)) ''   '' ''lunch'' None) ''category'' =
      Some (JStr (strip ''   ''))"
    by (elim allE)
  from b r m show ?thesis
    by (intro conjI)
qed

text \<open>
  Claim C6 as stated says that the factory applies the default. \<^verbatim>\<open>make_expense\<close> called
  with a category of three blanks builds a record whose category is the empty string,
  not "Uncategorized".
\<close>

theorem make_expense_blank_category_counterexample:
  "strip ''   '' = [] \<and>
   get (make_expense env0 (Finite (25 / 2)) ''   '' ''lunch'' None) ''category'' =
     Some (JStr []) \<and>
   get (make_expense env0 (Finite (25 / 2)) ''   '' ''lunch'' None) ''category'' \<noteq>
     Some (JStr ''Uncategorized'')"
  by (simp add: make_expense_def get_def strip_def isspace_def)

subsection \<open>The amount of a new record\<close>

lemma read_amount_accepts:
  "read_amount lines = (ev, Inr (amount, rest)) \<Longrightarrow>
   \<exists>l \<in> set lines. float_of_str (strip l) = Inr amount"
proof (induction lines arbitrary: ev)
  case Nil
  then show ?case by simp
next
  case (Cons l ls)
  show ?case
  proof (cases "float_of_str (strip l)")
    case (Inr a)
    with Cons.prems show ?thesis by simp
  next
    case (Inl x)
    with Cons.prems obtain ev' where "read_amount ls = (ev', Inr (amount, rest))"
      by (auto split: if_splits prod.splits)
    from Cons.IH [OF this] show ?thesis by auto
  qed
qed

lemma round_half_even_close: "\<bar>of_int (round_half_even x) - x\<bar> \<le> 1 / 2"
proof -
  define f where "f = (of_int \<lfloor>x\<rfloor> :: rat)"
  have fl: "f \<le> x" "x < f + 1" unfolding f_def by linarith+
  consider "x - f < 1 / 2" | "1 / 2 < x - f" | "x - f = 1 / 2" by linarith
  then show ?thesis
  proof cases
    case 1
    then have "of_int (round_half_even x) = f"
      by (simp add: round_half_even_def Let_def f_def)
    with fl 1 show ?thesis by linarith
  next
    case 2
    then have "of_int (round_half_even x) = f + 1"
      by (simp add: round_half_even_def Let_def f_def)
    with fl 2 show ?thesis by linarith
  next
    case 3
    then have "of_int (round_half_even x) = f \<or> of_int (round_half_even x) = f + 1"
      by (simp add: round_half_even_def Let_def f_def)
    with fl 3 show ?thesis by linarith
  qed
qed

lemma round_half_even_sign:
  "round_half_even x \<noteq> 0 \<Longrightarrow> (x < 0) = (round_half_even x < 0)"
proof -
  assume nz: "round_half_even x \<noteq> 0"
  have c: "\<bar>of_int (round_half_even x) - x\<bar> \<le> 1 / 2" by (rule round_half_even_close)
  show ?thesis
  proof (cases "round_half_even x < 0")
    case True
    then have "round_half_even x \<le> - 1" by simp
    then have "(of_int (round_half_even x) :: rat) \<le> - 1" by (metis of_int_le_iff of_int_minus of_int_1)
    with c True show ?thesis by (simp add: abs_if split: if_splits)
  next
    case False
    with nz have "1 \<le> round_half_even x" by simp
    then have "(1::rat) \<le> of_int (round_half_even x)" by simp
    with c False show ?thesis by (simp add: abs_if split: if_splits)
  qed
qed

lemma py_round2_Finite:
  "py_round2 (Finite a) =
     (if round_half_even (a * 100) = 0 \<and> a < 0 then NegZero
      else double_of_rat (of_int (round_half_even (a * 100)) / 100))"
proof (cases "round_half_even (a * 100) = 0")
  case True
  then show ?thesis
    by (simp add: py_round2_def double_of_rat_def round_to_double_def)
next
  case False
  from round_half_even_sign [OF False]
  have "(a < 0) = (round_half_even (a * 100) < 0)"
    by (simp add: mult_less_0_iff)
  then show ?thesis using False
    by (simp add: py_round2_def double_of_rat_def abs_divide divide_less_0_iff)
qed

lemma py_round2_special:
  "x = PosInf \<or> x = NegInf \<or> x = NaN \<or> x = NegZero \<Longrightarrow> py_round2 x = x"
  by (auto simp: py_round2_def)

text \<open>
  Claim C7, as the code has it. The amount is the float of the first line that \<^verbatim>\<open>float\<close>
  accepts; the record that is appended holds \<^verbatim>\<open>round(amount, 2)\<close>, so the rounding is
  done when the record is built. For a finite amount \<open>a\<close> that is the float nearest to
  \<open>k / 100\<close>, where the integer \<open>k\<close> is \<open>100 * a\<close> rounded half to even, so \<open>k / 100\<close> is
  within half a cent of \<open>a\<close> (a negative amount that rounds to zero gives \<open>-0.0\<close>); an
  infinity, \<open>NaN\<close> and \<open>-0.0\<close> are stored as they are. The sign of the amount is not
  looked at.
\<close>

theorem amount_rounded_at_creation:
  assumes "read_amount lines = (ev, Inr (amount, c # n # d # rest))"
  shows "(\<exists>l \<in> set lines. float_of_str (strip l) = Inr amount) \<and>
         (\<exists>e evs. add_expense_interactive env expenses lines = (expenses @ [e], evs, None) \<and>
            get e ''amount'' = Some (JFloat (py_round2 amount))) \<and>
         (\<forall>a. amount = Finite a \<longrightarrow>
            py_round2 amount =
              (if round_half_even (a * 100) = 0 \<and> a < 0 then NegZero
               else double_of_rat (of_int (round_half_even (a * 100)) / 100)) \<and>
            \<bar>of_int (round_half_even (a * 100)) / 100 - a\<bar> \<le> 1 / 200) \<and>
         ((\<forall>a. amount \<noteq> Finite a) \<longrightarrow> py_round2 amount = amount)"
proof (intro conjI allI impI)
  show "\<exists>l \<in> set lines. float_of_str (strip l) = Inr amount"
    using read_amount_accepts [OF assms] .
  show "\<exists>e evs. add_expense_interactive env expenses lines = (expenses @ [e], evs, None) \<and>
            get e ''amount'' = Some (JFloat (py_round2 amount))"
    using assms
    by (simp add: add_expense_interactive_def Let_def make_expense_def get_def
        split: prod.splits)
  show "py_round2 amount = amount" if "\<forall>a. amount \<noteq> Finite a"
    using that by (cases amount) (simp_all add: py_round2_special)
next
  fix a assume "amount = Finite a"
  then show "py_round2 amount =
              (if round_half_even (a * 100) = 0 \<and> a < 0 then NegZero
               else double_of_rat (of_int (round_half_even (a * 100)) / 100))"
    by (simp add: py_round2_Finite)
  have "\<bar>of_int (round_half_even (a * 100)) - a * 100\<bar> \<le> 1 / 2"
    by (rule round_half_even_close)
  then show "\<bar>of_int (round_half_even (a * 100)) / 100 - a\<bar> \<le> 1 / 200"
    by (simp add: abs_if field_simps split: if_splits)
qed

lemma float_of_str_12_345:
  "float_of_str ''12.345'' = Inr (Finite (6949617174986097 / 562949953421312))"
  by code_simp

lemma round_half_even_sample:
  "round_half_even (6949617174986097 / 562949953421312 * 100) = 1235"
  by code_simp

lemma double_12_35:
  "double_of_rat (of_int 1235 / 100) = Finite (6952431924753203 / 562949953421312)"
  by code_simp

lemma float_of_str_minus_5: "float_of_str ''-5'' = Inr (Finite (- 5))"
  by code_simp

lemma py_round2_minus_5: "py_round2 (Finite (- 5)) = Finite (- 5)"
  by code_simp

lemma strip_samples:
  "strip ''12.345'' = ''12.345''" "strip ''-5'' = ''-5''" "strip ''Food'' = ''Food''"
  "strip [] = []"
  by (simp_all add: strip_def isspace_def)

lemma read_amount_12_345:
  "read_amount [''12.345'', ''Food'', '''', ''''] =
     ([Prompt amount_prompt],
      Inr (Finite (6949617174986097 / 562949953421312), [''Food'', '''', '''']))"
  by (simp add: strip_samples float_of_str_12_345)

lemma read_amount_minus_5:
  "read_amount [''-5'', ''Food'', '''', ''''] =
     ([Prompt amount_prompt], Inr (Finite (- 5), [''Food'', '''', '''']))"
  by (simp add: strip_samples float_of_str_minus_5)

text \<open>
  The theorem on a run with the amount 12.345: the float read is a little above 12.345,
  \<open>k\<close> is 1235, and the record holds the float nearest to 12.35.
\<close>

theorem amount_rounded_at_creation_witness:
  "(\<exists>l \<in> set [''12.345'', ''Food'', '''', ''''].
      float_of_str (strip l) = Inr (Finite (6949617174986097 / 562949953421312))) \<and>
   (\<exists>e evs. add_expense_interactive env0 [] [''12.345'', ''Food'', '''', ''''] =
        ([e], evs, None) \<and>
      get e ''amount'' = Some (JFloat (Finite (6952431924753203 / 562949953421312)))) \<and>
   \<bar>(1235 :: rat) / 100 - 6949617174986097 / 562949953421312\<bar> \<le> 1 / 200"
proof -
  let ?x = "6949617174986097 / 562949953421312 :: rat"
  note t = amount_rounded_at_creation [OF read_amount_12_345, of env0 "[]", unfolded append_Nil]
  from t have a: "\<exists>l \<in> set [''12.345'', ''Food'', '''', ''''].
      float_of_str (strip l) = Inr (Finite ?x)"
    by (rule conjunct1)
  from t have b: "\<exists>e evs. add_expense_interactive env0 [] [''12.345'', ''Food'', '''', ''''] =
        ([e], evs, None) \<and> get e ''amount'' = Some (JFloat (py_round2 (Finite ?x)))"
    by blast
  from t have c: "py_round2 (Finite ?x) =
              (if round_half_even (?x * 100) = 0 \<and> ?x < 0 then NegZero
               else double_of_rat (of_int (round_half_even (?x * 100)) / 100)) \<and>
            \<bar>of_int (round_half_even (?x * 100)) / 100 - ?x\<bar> \<le> 1 / 200"
    by blast
  from c have r: "py_round2 (Finite ?x) = Finite (6952431924753203 / 562949953421312)"
    by (simp only: round_half_even_sample double_12_35) simp
  from c have d: "\<bar>(1235 :: rat) / 100 - ?x\<bar> \<le> 1 / 200"
    by (simp add: round_half_even_sample)
  from a b d show ?thesis
    by (simp only: r)
qed

text \<open>
  Claim C7 as stated says the amount is never negative. The line \<^verbatim>\<open>-5\<close> is accepted, and
  the record holds \<open>-5.0\<close>, which is not \<open>\<ge> 0\<close>.
\<close>

theorem negative_amount_counterexample:
  "(\<exists>e evs. add_expense_interactive env0 [] [''-5'', ''Food'', '''', ''''] = ([e], evs, None) \<and>
      get e ''amount'' = Some (JFloat (Finite (- 5)))) \<and>
   \<not> fle (Finite 0) (Finite (- 5))"
  by (simp add: add_expense_interactive_def read_amount_minus_5 Let_def make_expense_def
      get_def py_round2_minus_5 del: read_amount.simps split: prod.splits)

subsection \<open>Creating, saving and loading again\<close>
















subsection \<open>Totals\<close>

lemma collect_map_Inr:
  "(\<forall>x \<in> set xs. g x = Inr (f x)) \<Longrightarrow> collect (map g xs) = Inr (map f xs)"
  by (induction xs) simp_all

lemma float_of_int_0: "float_of_int 0 = Inr (Finite 0)"
  by (simp add: float_of_int_def double_of_rat_def round_to_double_def)

lemma amount_value_cases:
  "get e ''amount'' = None \<Longrightarrow> amount_value e = Inr (Finite 0)"
  "get e ''amount'' = Some v \<Longrightarrow> amount_value e = py_float v"
  by (simp_all add: amount_value_def get_default_def float_of_int_0)

lemma py_sum_left_to_right:
  "xs \<noteq> [] \<Longrightarrow> py_sum False xs = JFloat (foldl fadd (Finite 0) xs)"
  by (cases xs) (simp_all add: py_sum_def)

lemma summarize_amount:
  "py_float (get_default e ''amount'' (JFloat (Finite 0))) = amount_value e"
  by (simp add: amount_value_def get_default_def float_of_int_0 split: option.splits)

lemma well_typed_amount: "well_typed e \<Longrightarrow> amount_value e = Inr (amount_of e)"
  by (auto simp: well_typed_def amount_value_def amount_of_def get_default_def float_of_int_0
      split: option.splits sum.splits)

lemma well_typed_category:
  "well_typed e \<Longrightarrow> get_default e ''category'' (JStr ''Uncategorized'') = JStr (category_key e)"
  by (auto simp: well_typed_def category_key_def get_default_def
      split: option.splits json.splits)

lemma amount_samples:
  "amount_value t1 = Inr (Finite (5635129033747333 / 562949953421312))"
  "amount_value t2 = Inr (Finite 5)"
  "amount_value t3 = Inr (Finite 0)"
  "amount_of t1 = Finite (5635129033747333 / 562949953421312)"
  "amount_of t2 = Finite 5"
  "amount_of t3 = Finite 0"
  by code_simp+

lemma well_typed_samples: "list_all well_typed [t1, t2, t3]"
  by code_simp

lemma category_samples:
  "category_key t1 = ''Food''" "category_key t2 = ''Food''"
  "category_key t3 = ''Uncategorized''"
  by code_simp+

lemma sum_sample:
  "foldl fadd (Finite 0) [Finite (5635129033747333 / 562949953421312), Finite 5, Finite 0] =
     Finite (8449878800853893 / 562949953421312)"
  by code_simp

lemma sum_sample_compensated:
  "py_sum True [Finite (5635129033747333 / 562949953421312), Finite 5, Finite 0] =
     JFloat (Finite (8449878800853893 / 562949953421312))"
  by code_simp

text \<open>
  Claim C8. The total of the empty ledger is the integer 0. When \<^verbatim>\<open>float\<close> accepts the
  amount of every record (\<open>f e\<close> being the float it gives for \<open>e\<close>, \<open>0.0\<close> for a record
  without amount), the total is Python's \<^verbatim>\<open>sum\<close> of these floats in ledger order; on an
  interpreter whose \<^verbatim>\<open>sum\<close> is not compensated that is the float sum from left to right.
  An amount stored as a float is taken as it is.
\<close>

theorem total_is_sum_of_amounts:
  "get_total_spending c [] = Inr (JInt 0) \<and>
   ((\<forall>e \<in> set es. amount_value e = Inr (f e)) \<longrightarrow>
      get_total_spending c es = Inr (py_sum c (map f es)) \<and>
      (es \<noteq> [] \<longrightarrow>
         get_total_spending False es = Inr (JFloat (foldl fadd (Finite 0) (map f es))))) \<and>
   (\<forall>e a. get e ''amount'' = Some (JFloat a) \<longrightarrow> amount_value e = Inr a)"
proof (intro conjI impI allI)
  show "get_total_spending c [] = Inr (JInt 0)"
    by (simp add: get_total_spending_def py_sum_def)
next
  assume a: "\<forall>e \<in> set es. amount_value e = Inr (f e)"
  then have "collect (map amount_value es) = Inr (map f es)"
    by (rule collect_map_Inr)
  then show "get_total_spending c es = Inr (py_sum c (map f es))" for c
    by (simp add: get_total_spending_def)
  then show "get_total_spending False es = Inr (JFloat (foldl fadd (Finite 0) (map f es)))"
    if "es \<noteq> []"
    using that by (simp add: py_sum_left_to_right)
next
  fix e a assume "get e ''amount'' = Some (JFloat a)"
  then show "amount_value e = Inr a"
    by (simp add: amount_value_cases)
qed

text \<open>
  The theorem at \<open>[t1, t2, t3]\<close>: 10.01, the integer 5 and a record without amount add
  up to the float nearest to 15.01, with either \<^verbatim>\<open>sum\<close>.
\<close>

theorem total_is_sum_of_amounts_witness:
  "amount_value t1 = Inr (amount_of t1) \<and> amount_value t2 = Inr (amount_of t2) \<and>
   amount_value t3 = Inr (amount_of t3) \<and>
   get_total_spending False [t1, t2, t3] =
     Inr (JFloat (Finite (8449878800853893 / 562949953421312))) \<and>
   get_total_spending True [t1, t2, t3] =
     Inr (JFloat (Finite (8449878800853893 / 562949953421312)))"
proof -
  have h: "\<forall>e \<in> set [t1, t2, t3]. amount_value e = Inr (amount_of e)"
    by (simp add: amount_samples)
  have m: "map amount_of [t1, t2, t3] =
      [Finite (5635129033747333 / 562949953421312), Finite 5, Finite 0]"
    by (simp add: amount_samples)
  from total_is_sum_of_amounts [of False "[t1, t2, t3]" amount_of] h
  have "get_total_spending False [t1, t2, t3] =
      Inr (JFloat (foldl fadd (Finite 0) (map amount_of [t1, t2, t3])))"
    by blast
  then have a: "get_total_spending False [t1, t2, t3] =
      Inr (JFloat (Finite (8449878800853893 / 562949953421312)))"
    by (simp only: m sum_sample)
  from total_is_sum_of_amounts [of True "[t1, t2, t3]" amount_of] h
  have "get_total_spending True [t1, t2, t3] = Inr (py_sum True (map amount_of [t1, t2, t3]))"
    by blast
  then have b: "get_total_spending True [t1, t2, t3] =
      Inr (JFloat (Finite (8449878800853893 / 562949953421312)))"
    by (simp only: m sum_sample_compensated)
  from a b show ?thesis
    by (simp add: amount_samples)
qed

subsection \<open>Records with missing fields\<close>

lemma get_with_default:
  "get (with_default k v e) k' =
     (if k' = k \<and> get e k = None then Some v else get e k')"
  by (auto simp: with_default_def get_def map_add_def split: option.splits)

lemma amount_value_with_default:
  "amount_value (with_default ''amount'' (JInt 0) e) = amount_value e"
  by (simp add: amount_value_def get_default_def get_with_default float_of_int_0
      split: option.splits)

lemma category_with_default:
  "get_default (with_default ''category'' (JStr ''Uncategorized'') e) ''category''
      (JStr ''Uncategorized'') = get_default e ''category'' (JStr ''Uncategorized'')"
  "amount_value (with_default ''category'' v e) = amount_value e"
  by (simp_all add: amount_value_def get_default_def get_with_default split: option.splits)

lemma summarize_with_default:
  "summarize acc (map (with_default ''category'' (JStr ''Uncategorized'')) es) =
     summarize acc es"
proof (induction es arbitrary: acc)
  case Nil
  then show ?case by simp
next
  case (Cons e es)
  show ?case
    by (simp add: summarize_amount category_with_default Cons.IH
        split: json.splits sum.splits)
qed

lemma summarize_returns:
  "\<forall>e \<in> set es. well_typed e \<Longrightarrow> \<exists>s. summarize acc es = Inr s"
proof (induction es arbitrary: acc)
  case Nil
  then show ?case by simp
next
  case (Cons e es)
  then show ?case
    by (simp add: summarize_amount well_typed_amount well_typed_category)
qed

text \<open>
  Claim C10. On a ledger whose records are well typed where they have a value (any key may
  be missing), the total and the category summary both return a result. The total is
  the total of the ledger in which every record without amount has been given the amount
  0, and the summary is the summary of the ledger in which every record without category
  has been given the category "Uncategorized".
\<close>

theorem aggregation_total_on_missing_fields:
  assumes "list_all well_typed es"
  shows "(\<exists>t. get_total_spending c es = Inr t) \<and>
         (\<exists>s. spending_by_category es = Inr s) \<and>
         get_total_spending c es =
           get_total_spending c (map (with_default ''amount'' (JInt 0)) es) \<and>
         spending_by_category es =
           spending_by_category (map (with_default ''category'' (JStr ''Uncategorized'')) es)"
proof (intro conjI)
  from assms have w: "\<forall>e \<in> set es. well_typed e"
    by (simp add: list_all_iff)
  then have "\<forall>e \<in> set es. amount_value e = Inr (amount_of e)"
    using well_typed_amount by blast
  then have "collect (map amount_value es) = Inr (map amount_of es)"
    by (rule collect_map_Inr)
  then show "\<exists>t. get_total_spending c es = Inr t"
    by (simp add: get_total_spending_def)
  from summarize_returns [OF w, of "[]"] obtain s where "summarize [] es = Inr s"
    by blast
  then show "\<exists>s. spending_by_category es = Inr s"
    by (simp add: spending_by_category_def)
  show "get_total_spending c es =
           get_total_spending c (map (with_default ''amount'' (JInt 0)) es)"
    by (simp add: get_total_spending_def comp_def amount_value_with_default)
  show "spending_by_category es =
           spending_by_category (map (with_default ''category'' (JStr ''Uncategorized'')) es)"
    by (simp add: spending_by_category_def summarize_with_default)
qed

lemma missing_samples:
  "get t3 ''amount'' = None" "get t3 ''category'' = None"
  "with_default ''amount'' (JInt 0) t1 = t1"
  "with_default ''amount'' (JInt 0) t2 = t2"
  "with_default ''amount'' (JInt 0) t3 = t3 @ [(''amount'', JInt 0)]"
  "with_default ''category'' (JStr ''Uncategorized'') t1 = t1"
  "with_default ''category'' (JStr ''Uncategorized'') t2 = t2"
  "with_default ''category'' (JStr ''Uncategorized'') t3 =
     t3 @ [(''category'', JStr ''Uncategorized'')]"
  by code_simp+

lemma summary_sample:
  "spending_by_category [t1, t2, t3 @ [(''category'', JStr ''Uncategorized'')]] =
     Inr [(''Food'', Finite (8449878800853893 / 562949953421312)),
          (''Uncategorized'', Finite 0)]"
  by code_simp

lemma total_sample:
  "get_total_spending True [t1, t2, t3 @ [(''amount'', JInt 0)]] =
     Inr (JFloat (Finite (8449878800853893 / 562949953421312)))"
  by code_simp

text \<open>
  The theorem at \<open>[t1, t2, t3]\<close>, where \<open>t3\<close> has neither amount nor category: it adds
  nothing to the total and is counted under "Uncategorized".
\<close>

theorem aggregation_total_on_missing_fields_witness:
  "list_all well_typed [t1, t2, t3] \<and> get t3 ''amount'' = None \<and>
   get t3 ''category'' = None \<and>
   get_total_spending True [t1, t2, t3] =
     Inr (JFloat (Finite (8449878800853893 / 562949953421312))) \<and>
   spending_by_category [t1, t2, t3] =
     Inr [(''Food'', Finite (8449878800853893 / 562949953421312)),
          (''Uncategorized'', Finite 0)]"
proof -
  from aggregation_total_on_missing_fields [OF well_typed_samples, of True]
  have "get_total_spending True [t1, t2, t3] =
          get_total_spending True (map (with_default ''amount'' (JInt 0)) [t1, t2, t3])"
    and "spending_by_category [t1, t2, t3] =
          spending_by_category
            (map (with_default ''category'' (JStr ''Uncategorized'')) [t1, t2, t3])"
    by blast+
  then have "get_total_spending True [t1, t2, t3] =
        Inr (JFloat (Finite (8449878800853893 / 562949953421312)))"
    and "spending_by_category [t1, t2, t3] =
        Inr [(''Food'', Finite (8449878800853893 / 562949953421312)),
             (''Uncategorized'', Finite 0)]"
    by (simp_all only: list.map missing_samples summary_sample total_sample)
  then show ?thesis
    using well_typed_samples missing_samples(1,2) by blast
qed

subsection \<open>The category summary\<close>

lemma map_of_dict_set: "map_of (dict_set d k v) = (map_of d)(k \<mapsto> v)"
  by (induction d) (auto simp: fun_eq_iff)

lemma map_fst_dict_set:
  "map fst (dict_set d k v) = (if k \<in> fst ` set d then map fst d else map fst d @ [k])"
  by (induction d) (auto split: if_splits)

lemma keys_dict_set: "fst ` set (dict_set d k v) = insert k (fst ` set d)"
proof -
  have "set (map fst (dict_set d k v)) = insert k (set (map fst d))"
    unfolding map_fst_dict_set by auto
  then show ?thesis by simp
qed

lemma distinct_dict_set: "distinct (map fst d) \<Longrightarrow> distinct (map fst (dict_set d k v))"
  unfolding map_fst_dict_set by simp

lemma summarize_lookup:
  assumes "\<forall>e \<in> set es. well_typed e"
  shows "\<exists>s. summarize acc es = Inr s \<and>
     (\<forall>c. map_of s c =
        (if filter (\<lambda>e. category_key e = c) es = [] then map_of acc c
         else Some (foldl fadd (case map_of acc c of None \<Rightarrow> Finite 0 | Some v \<Rightarrow> v)
                      (map amount_of (filter (\<lambda>e. category_key e = c) es))))) \<and>
     fst ` set s = fst ` set acc \<union> category_key ` set es \<and>
     (distinct (map fst acc) \<longrightarrow> distinct (map fst s))"
  using assms
proof (induction es arbitrary: acc)
  case Nil
  then show ?case by simp
next
  case (Cons e es)
  define k where "k = category_key e"
  define v0 where "v0 = (case map_of acc k of None \<Rightarrow> Finite 0 | Some v \<Rightarrow> v)"
  define acc' where "acc' = dict_set acc k (fadd v0 (amount_of e))"
  from Cons.prems have wt: "well_typed e" and rest: "\<forall>e \<in> set es. well_typed e"
    by simp_all
  have step: "summarize acc (e # es) = summarize acc' es"
    using wt by (simp add: summarize_amount well_typed_amount well_typed_category
        acc'_def v0_def k_def)
  from Cons.IH [OF rest, of acc'] obtain s where s: "summarize acc' es = Inr s"
    and look: "\<And>c. map_of s c =
        (if filter (\<lambda>e. category_key e = c) es = [] then map_of acc' c
         else Some (foldl fadd (case map_of acc' c of None \<Rightarrow> Finite 0 | Some v \<Rightarrow> v)
                      (map amount_of (filter (\<lambda>e. category_key e = c) es))))"
    and keys: "fst ` set s = fst ` set acc' \<union> category_key ` set es"
    and dist: "distinct (map fst acc') \<longrightarrow> distinct (map fst s)"
    by blast
  have "map_of s c =
        (if filter (\<lambda>e. category_key e = c) (e # es) = [] then map_of acc c
         else Some (foldl fadd (case map_of acc c of None \<Rightarrow> Finite 0 | Some v \<Rightarrow> v)
                      (map amount_of (filter (\<lambda>e. category_key e = c) (e # es)))))" for c
  proof (cases "c = k")
    case True
    then show ?thesis
      by (simp add: look acc'_def map_of_dict_set k_def [symmetric] v0_def)
  next
    case False
    then show ?thesis
      by (auto simp: look acc'_def map_of_dict_set k_def [symmetric])
  qed
  moreover have "fst ` set s = fst ` set acc \<union> category_key ` set (e # es)"
    unfolding keys acc'_def keys_dict_set k_def by auto
  moreover have "distinct (map fst acc) \<longrightarrow> distinct (map fst s)"
    using dist by (simp add: acc'_def distinct_dict_set)
  ultimately show ?case
    using step s by simp
qed

lemma map_of_rounded:
  "map_of (map (\<lambda>(k, v). (k, py_round2 v)) s) c = map_option py_round2 (map_of s c)"
  by (induction s) auto

text \<open>
  Claim C4, as the code has it. On a ledger of well typed records the summary has one
  entry for each category that occurs (a record without category counting as
  "Uncategorized"), each category once, and the subtotal of a category is the float sum,
  from left to right, of the amounts of its records, rounded to two decimal places. On
  an interpreter whose \<^verbatim>\<open>sum\<close> is not compensated, the sum before rounding is the total
  of the records of that category. The subtotals are rounded and the total is not, so
  their sum need not be the total.
\<close>

theorem category_subtotals:
  assumes "list_all well_typed es"
  shows "\<exists>summary. spending_by_category es = Inr summary \<and>
           distinct (map fst summary) \<and>
           set (map fst summary) = category_key ` set es \<and>
           (\<forall>c \<in> category_key ` set es.
              map_of summary c =
                Some (py_round2 (foldl fadd (Finite 0)
                        (map amount_of (filter (\<lambda>e. category_key e = c) es)))) \<and>
              get_total_spending False (filter (\<lambda>e. category_key e = c) es) =
                Inr (JFloat (foldl fadd (Finite 0)
                        (map amount_of (filter (\<lambda>e. category_key e = c) es)))))"
proof -
  from assms have w: "\<forall>e \<in> set es. well_typed e"
    by (simp add: list_all_iff)
  from summarize_lookup [OF w, of "[]"] obtain s where s: "summarize [] es = Inr s"
    and look: "\<And>c. map_of s c =
        (if filter (\<lambda>e. category_key e = c) es = [] then None
         else Some (foldl fadd (Finite 0)
                      (map amount_of (filter (\<lambda>e. category_key e = c) es))))"
    and keys: "fst ` set s = category_key ` set es"
    and dist: "distinct (map fst s)"
    by auto
  let ?summary = "map (\<lambda>(k, v). (k, py_round2 v)) s"
  have fst_eq: "map fst ?summary = map fst s"
    by (simp add: case_prod_unfold comp_def)
  have "spending_by_category es = Inr ?summary"
    by (simp add: spending_by_category_def s)
  moreover have "distinct (map fst ?summary)"
    unfolding fst_eq using dist .
  moreover have "set (map fst ?summary) = category_key ` set es"
    unfolding fst_eq using keys by simp
  moreover have "map_of ?summary c =
                Some (py_round2 (foldl fadd (Finite 0)
                        (map amount_of (filter (\<lambda>e. category_key e = c) es)))) \<and>
              get_total_spending False (filter (\<lambda>e. category_key e = c) es) =
                Inr (JFloat (foldl fadd (Finite 0)
                        (map amount_of (filter (\<lambda>e. category_key e = c) es))))"
    if "c \<in> category_key ` set es" for c
  proof -
    from that have ne: "filter (\<lambda>e. category_key e = c) es \<noteq> []"
      by (auto simp: filter_empty_conv)
    have "\<forall>e \<in> set (filter (\<lambda>e. category_key e = c) es). amount_value e = Inr (amount_of e)"
      using w well_typed_amount by simp
    then have "collect (map amount_value (filter (\<lambda>e. category_key e = c) es)) =
        Inr (map amount_of (filter (\<lambda>e. category_key e = c) es))"
      by (rule collect_map_Inr)
    with ne show ?thesis
      by (simp add: map_of_rounded look get_total_spending_def py_sum_left_to_right)
  qed
  ultimately show ?thesis by blast
qed

lemma subtotal_samples:
  "py_round2 (foldl fadd (Finite 0) [Finite (5635129033747333 / 562949953421312), Finite 5]) =
     Finite (8449878800853893 / 562949953421312)"
  "py_round2 (foldl fadd (Finite 0) [Finite 0]) = Finite 0"
  by code_simp+

lemma filter_samples: "filter (\<lambda>e. category_key e = ''Food'') [t1, t2, t3] = [t1, t2]"
    "filter (\<lambda>e. category_key e = ''Uncategorized'') [t1, t2, t3] = [t3]"
    by (simp_all add: category_samples)

lemma keys_sample: "category_key ` set [t1, t2, t3] = {''Food'', ''Uncategorized''}"
    by (simp add: category_samples)

text \<open>
  The theorem at \<open>[t1, t2, t3]\<close>: "Food" stands for \<open>t1\<close> and \<open>t2\<close> with the subtotal 15.01,
  "Uncategorized" for \<open>t3\<close> with the subtotal 0.0.
\<close>

theorem category_subtotals_witness:
  "list_all well_typed [t1, t2, t3] \<and>
   (\<exists>summary. spending_by_category [t1, t2, t3] = Inr summary \<and>
      distinct (map fst summary) \<and>
      set (map fst summary) = {''Food'', ''Uncategorized''} \<and>
      map_of summary ''Food'' = Some (Finite (8449878800853893 / 562949953421312)) \<and>
      map_of summary ''Uncategorized'' = Some (Finite 0))"
proof -
  from category_subtotals [OF well_typed_samples] obtain summary where
    a: "spending_by_category [t1, t2, t3] = Inr summary \<and>
           distinct (map fst summary) \<and>
           set (map fst summary) = category_key ` set [t1, t2, t3] \<and>
           (\<forall>c \<in> category_key ` set [t1, t2, t3].
              map_of summary c =
                Some (py_round2 (foldl fadd (Finite 0)
                        (map amount_of (filter (\<lambda>e. category_key e = c) [t1, t2, t3])))) \<and>
              get_total_spending False (filter (\<lambda>e. category_key e = c) [t1, t2, t3]) =
                Inr (JFloat (foldl fadd (Finite 0)
                        (map amount_of (filter (\<lambda>e. category_key e = c) [t1, t2, t3])))))"
    ..
  from a have s1: "spending_by_category [t1, t2, t3] = Inr summary" by (rule conjunct1)
  from a have s2: "distinct (map fst summary)" by (elim conjE)
  from a have s3: "set (map fst summary) = {''Food'', ''Uncategorized''}"
    unfolding keys_sample by (elim conjE)
  from a have l: "\<forall>c \<in> {''Food'', ''Uncategorized''}.
              map_of summary c =
                Some (py_round2 (foldl fadd (Finite 0)
                        (map amount_of (filter (\<lambda>e. category_key e = c) [t1, t2, t3])))) \<and>
              get_total_spending False (filter (\<lambda>e. category_key e = c) [t1, t2, t3]) =
                Inr (JFloat (foldl fadd (Finite 0)
                        (map amount_of (filter (\<lambda>e. category_key e = c) [t1, t2, t3]))))"
    unfolding keys_sample by (elim conjE)
  have "''Food'' \<in> {''Food'', ''Uncategorized''}" by (rule insertI1)
  from bspec [OF l this] have "map_of summary ''Food'' =
      Some (py_round2 (foldl fadd (Finite 0) (map amount_of [t1, t2])))"
    unfolding filter_samples by (rule conjunct1)
  then have s4: "map_of summary ''Food'' = Some (Finite (8449878800853893 / 562949953421312))"
    by (simp only: list.map amount_samples subtotal_samples)
  have "''Uncategorized'' \<in> {''Food'', ''Uncategorized''}" by (rule insertI2) (rule insertI1)
  from bspec [OF l this] have "map_of summary ''Uncategorized'' =
      Some (py_round2 (foldl fadd (Finite 0) (map amount_of [t3])))"
    unfolding filter_samples by (rule conjunct1)
  then have s5: "map_of summary ''Uncategorized'' = Some (Finite 0)"
    by (simp only: list.map amount_samples subtotal_samples)
  from s1 s2 s3 s4 s5 have "\<exists>summary. spending_by_category [t1, t2, t3] = Inr summary \<and>
      distinct (map fst summary) \<and>
      set (map fst summary) = {''Food'', ''Uncategorized''} \<and>
      map_of summary ''Food'' = Some (Finite (8449878800853893 / 562949953421312)) \<and>
      map_of summary ''Uncategorized'' = Some (Finite 0)"
    by (intro exI conjI)
  with well_typed_samples show ?thesis by (rule conjI)
qed

lemma partition_sample_file:
  "spending_by_category [q1] = Inr [(''Food'', Finite (1080863910568919 / 9007199254740992))]"
  "sum_of_subtotals False [(''Food'', Finite (1080863910568919 / 9007199254740992))] =
     JFloat (Finite (1080863910568919 / 9007199254740992))"
  "sum_of_subtotals True [(''Food'', Finite (1080863910568919 / 9007199254740992))] =
     JFloat (Finite (1080863910568919 / 9007199254740992))"
  "get_total_spending False [q1] = Inr (JFloat (Finite (1 / 8)))"
  "get_total_spending True [q1] = Inr (JFloat (Finite (1 / 8)))"
  "\<not> feq (Finite (1080863910568919 / 9007199254740992)) (Finite (1 / 8))"
  by code_simp+

lemma partition_sample_created:
  "py_round2 (Finite (3602879701896397 / 36028797018963968)) =
     Finite (3602879701896397 / 36028797018963968)"
  "py_round2 (Finite (3602879701896397 / 18014398509481984)) =
     Finite (3602879701896397 / 18014398509481984)"
  "spending_by_category [p1, p2] =
     Inr [(''Food'', Finite (5404319552844595 / 18014398509481984))]"
  "sum_of_subtotals False [(''Food'', Finite (5404319552844595 / 18014398509481984))] =
     JFloat (Finite (5404319552844595 / 18014398509481984))"
  "sum_of_subtotals True [(''Food'', Finite (5404319552844595 / 18014398509481984))] =
     JFloat (Finite (5404319552844595 / 18014398509481984))"
  "get_total_spending False [p1, p2] =
     Inr (JFloat (Finite (1351079888211149 / 4503599627370496)))"
  "get_total_spending True [p1, p2] =
     Inr (JFloat (Finite (1351079888211149 / 4503599627370496)))"
  "\<not> feq (Finite (5404319552844595 / 18014398509481984))
         (Finite (1351079888211149 / 4503599627370496))"
  by code_simp+

text \<open>
  Claim C4 as stated says the subtotals add up to the total. A ledger read from a file
  with the one amount 0.125 has the subtotal 0.12 and the total 0.125. A ledger the
  program builds itself, with the amounts 0.1 and 0.2 in one category (both unchanged by
  the rounding at creation), has the subtotal 0.3 and the total 0.30000000000000004.
  This holds with either \<^verbatim>\<open>sum\<close>.
\<close>

theorem category_partition_counterexample:
  "spending_by_category [q1] = Inr [(''Food'', Finite (1080863910568919 / 9007199254740992))] \<and>
   sum_of_subtotals False [(''Food'', Finite (1080863910568919 / 9007199254740992))] =
     JFloat (Finite (1080863910568919 / 9007199254740992)) \<and>
   sum_of_subtotals True [(''Food'', Finite (1080863910568919 / 9007199254740992))] =
     JFloat (Finite (1080863910568919 / 9007199254740992)) \<and>
   get_total_spending False [q1] = Inr (JFloat (Finite (1 / 8))) \<and>
   get_total_spending True [q1] = Inr (JFloat (Finite (1 / 8))) \<and>
   \<not> feq (Finite (1080863910568919 / 9007199254740992)) (Finite (1 / 8)) \<and>
   spending_by_category [p1, p2] =
     Inr [(''Food'', Finite (5404319552844595 / 18014398509481984))] \<and>
   sum_of_subtotals False [(''Food'', Finite (5404319552844595 / 18014398509481984))] =
     JFloat (Finite (5404319552844595 / 18014398509481984)) \<and>
   sum_of_subtotals True [(''Food'', Finite (5404319552844595 / 18014398509481984))] =
     JFloat (Finite (5404319552844595 / 18014398509481984)) \<and>
   get_total_spending False [p1, p2] =
     Inr (JFloat (Finite (1351079888211149 / 4503599627370496))) \<and>
   get_total_spending True [p1, p2] =
     Inr (JFloat (Finite (1351079888211149 / 4503599627370496))) \<and>
   \<not> feq (Finite (5404319552844595 / 18014398509481984))
         (Finite (1351079888211149 / 4503599627370496))"
  using partition_sample_file partition_sample_created by blast

subsection \<open>Searching\<close>

lemma starts_with_iff: "starts_with k s \<longleftrightarrow> (\<exists>t. s = k @ t)"
  by (induction k s rule: starts_with.induct) auto

lemma is_substring_iff: "is_substring k s \<longleftrightarrow> (\<exists>p t. s = p @ k @ t)"
proof (induction s)
  case Nil
  then show ?case by simp
next
  case (Cons c s)
  have "(\<exists>p t. c # s = p @ k @ t) \<longleftrightarrow> (\<exists>t. c # s = k @ t) \<or> (\<exists>p t. s = p @ k @ t)"
  proof
    assume "\<exists>p t. c # s = p @ k @ t"
    then obtain p t where pt: "c # s = p @ k @ t" by blast
    show "(\<exists>t. c # s = k @ t) \<or> (\<exists>p t. s = p @ k @ t)"
    proof (cases p)
      case Nil
      with pt show ?thesis by auto
    next
      case (Cons a p')
      with pt have "s = p' @ k @ t" by simp
      then show ?thesis by blast
    qed
  next
    assume "(\<exists>t. c # s = k @ t) \<or> (\<exists>p t. s = p @ k @ t)"
    then show "\<exists>p t. c # s = p @ k @ t"
    proof
      assume "\<exists>t. c # s = k @ t"
      then obtain t where "c # s = [] @ k @ t" by auto
      then show ?thesis by blast
    next
      assume "\<exists>p t. s = p @ k @ t"
      then obtain p t where "c # s = (c # p) @ k @ t" by auto
      then show ?thesis by blast
    qed
  qed
  with Cons.IH show ?case by (simp add: starts_with_iff)
qed

lemma contains_ci_code: "contains_ci k s = is_substring (lower k) (lower s)"
  by (simp add: contains_ci_def is_substring_iff)

lemma contains_ci_empty: "contains_ci [] s"
  unfolding contains_ci_code by (cases "lower s") (simp_all add: lower_def)

lemma lower_field_text: "is_text (get e k) \<Longrightarrow> lower_field e k = Inr (lower (text_field e k))"
  by (auto simp: is_text_def lower_field_def get_default_def text_field_def lower_def
      split: option.splits json.splits)

lemma matches_searchable: "searchable e \<Longrightarrow> matches (lower k) e = Inr (hit k e)"
  by (simp add: searchable_def matches_def lower_field_text hit_def contains_ci_code)

lemma filter_matches_searchable:
  "list_all searchable es \<Longrightarrow> filter_matches (lower k) es = Inr (filter (hit k) es)"
  by (induction es) (simp_all add: matches_searchable)

lemma date_key_text: "is_text (get e ''date'') \<Longrightarrow> date_key e = Some (text_field e ''date'')"
  by (auto simp: is_text_def date_key_def get_default_def text_field_def
      split: option.splits json.splits)

lemma sort_short: "length xs \<le> 1 \<Longrightarrow> rev (sort_key f (rev xs)) = xs"
  by (cases xs) (auto simp: length_Suc_conv)

lemma insort_key_same:
  "f x = g x \<Longrightarrow> \<forall>y \<in> set ys. f y = g y \<Longrightarrow> insort_key f x ys = insort_key g x ys"
  by (induction ys) simp_all

lemma sort_key_same:
  "\<forall>x \<in> set xs. f x = g x \<Longrightarrow> sort_key f xs = sort_key g xs"
proof (induction xs)
  case Nil
  then show ?case by simp
next
  case (Cons x xs)
  then have ih: "sort_key f xs = sort_key g xs" by simp
  have "insort_key f x (sort_key g xs) = insort_key g x (sort_key g xs)"
    using Cons.prems by (intro insort_key_same) simp_all
  with ih show ?case by simp
qed

lemma sort_by_date_desc_searchable:
  assumes "list_all searchable rs"
  shows "sort_by_date_desc rs = Inr (rev (sort_key (\<lambda>e. text_field e ''date'') (rev rs)))"
proof -
  from assms have d: "\<forall>e \<in> set rs. date_key e = Some (text_field e ''date'')"
    by (simp add: list_all_iff searchable_def date_key_text)
  then have a: "list_all (\<lambda>e. date_key e \<noteq> None) rs"
    by (simp add: list_all_iff)
  from d have "sort_key (\<lambda>e. the (date_key e)) (rev rs) = sort_key (\<lambda>e. text_field e ''date'') (rev rs)"
    by (intro sort_key_same) simp
  with a show ?thesis
    by (simp add: sort_by_date_desc_def sort_short)
qed


lemma print_expense_printable: "printable e \<Longrightarrow> snd (print_expense e) = None"
  by (auto simp: printable_def print_expense_def split: prod.splits option.splits)

lemma print_all_printable:
  "list_all printable rs \<Longrightarrow> print_all rs = (shown rs, None)"
proof (induction rs)
  case Nil
  then show ?case by (simp add: shown_def)
next
  case (Cons e rs)
  then have "snd (print_expense e) = None" "print_all rs = (shown rs, None)"
    by (simp_all add: print_expense_printable)
  then show ?case
    by (cases "print_expense e") (simp add: shown_def)
qed

text \<open>
  Claim C5. On a ledger whose records have strings for category, note and date where they
  have them, the search finds exactly the records with a hit for the stripped keyword
  (as a multiset: each record as often as it is in the ledger), ordered by date from the
  latest to the earliest, records of one date in ledger order. With an empty keyword that
  is every record. When every record has the keys that are printed, these records are
  printed in this order, or the "no match" line when there is none.
\<close>

theorem search_results_correct:
  assumes "list_all searchable es"
  shows "\<exists>rs. search_results es inp = Inr rs \<and>
           mset rs = mset (filter (hit (strip inp)) es) \<and>
           sorted_wrt (\<lambda>a b. text_field b ''date'' \<le> text_field a ''date'') rs \<and>
           (\<forall>d. filter (\<lambda>e. text_field e ''date'' = d) rs =
                filter (\<lambda>e. text_field e ''date'' = d) (filter (hit (strip inp)) es)) \<and>
           (strip inp = [] \<longrightarrow> mset rs = mset es) \<and>
           (list_all printable es \<longrightarrow>
              search_expenses es inp =
                (Prompt search_prompt #
                   (if rs = [] then [Print ''No matching expenses found.''] else shown rs),
                 None))"
proof -
  let ?found = "filter (hit (strip inp)) es"
  let ?date = "\<lambda>e. text_field e ''date''"
  let ?rs = "rev (sort_key ?date (rev ?found))"
  from assms have fs: "list_all searchable ?found"
    by (simp add: list_all_iff)
  have res: "search_results es inp = Inr ?rs"
    using filter_matches_searchable [OF assms, of "strip inp"]
      sort_by_date_desc_searchable [OF fs]
    by (simp add: search_results_def)
  have m: "mset ?rs = mset ?found" by simp
  have "sorted (map ?date (sort_key ?date (rev ?found)))"
    by (rule sorted_sort_key)
  then have "sorted_wrt (\<lambda>a b. ?date a \<le> ?date b) (sort_key ?date (rev ?found))"
    by (simp add: sorted_map)
  then have srt: "sorted_wrt (\<lambda>a b. ?date b \<le> ?date a) ?rs"
    by (simp add: sorted_wrt_rev)
  have stable: "filter (\<lambda>e. ?date e = d) ?rs = filter (\<lambda>e. ?date e = d) ?found" for d
    by (simp add: rev_filter [symmetric] sort_key_stable)
  have all: "mset ?rs = mset es" if "strip inp = []"
  proof -
    from that have "hit (strip inp) e" for e
      by (simp add: hit_def contains_ci_empty)
    then have "?found = es" by simp
    with m show ?thesis by simp
  qed
  have disp: "search_expenses es inp =
                (Prompt search_prompt #
                   (if ?rs = [] then [Print ''No matching expenses found.''] else shown ?rs),
                 None)" if "list_all printable es"
  proof -
    from that have "list_all printable ?rs"
      by (simp add: list_all_iff)
    then have "print_all ?rs = (shown ?rs, None)"
      by (rule print_all_printable)
    then show ?thesis
      by (cases ?rs) (simp_all add: search_expenses_def res del: print_all.simps)
  qed
  from res m srt stable all disp show ?thesis by blast
qed

lemma search_samples:
  "search_results [s1, s2, s3] ''  TRAVEL '' = Inr [s2, s1]"
  "search_results [s1, s2, s3] '''' = Inr [s2, s1, s3]"
  "list_all searchable [s1, s2, s3]"
  "strip ''  TRAVEL '' = ''TRAVEL''"
  by code_simp+

lemma hit_samples: "hit ''TRAVEL'' s1" "hit ''TRAVEL'' s2" "\<not> hit ''TRAVEL'' s3"
  unfolding hit_def contains_ci_code by code_simp+

text \<open>
  The theorem at \<open>[s1, s2, s3]\<close> with the keyword \<^verbatim>\<open>TRAVEL\<close> typed between blanks: \<open>s1\<close>
  has it in the category and \<open>s2\<close> in the note; \<open>s2\<close>, of the later day, comes first.
\<close>

theorem search_results_correct_witness:
  "list_all searchable [s1, s2, s3] \<and>
   strip ''  TRAVEL '' = ''TRAVEL'' \<and>
   filter (hit ''TRAVEL'') [s1, s2, s3] = [s1, s2] \<and>
   (\<exists>rs. search_results [s1, s2, s3] ''  TRAVEL '' = Inr rs \<and>
      mset rs = {#s1, s2#} \<and>
      sorted_wrt (\<lambda>a b. text_field b ''date'' \<le> text_field a ''date'') rs) \<and>
   search_results [s1, s2, s3] ''  TRAVEL '' = Inr [s2, s1]"
proof -
  have f: "filter (hit ''TRAVEL'') [s1, s2, s3] = [s1, s2]"
    by (simp add: hit_samples)
  from search_results_correct [OF search_samples(3), of "''  TRAVEL ''"]
  obtain rs where r: "search_results [s1, s2, s3] ''  TRAVEL '' = Inr rs"
    "mset rs = mset (filter (hit (strip ''  TRAVEL '')) [s1, s2, s3])"
    "sorted_wrt (\<lambda>a b. text_field b ''date'' \<le> text_field a ''date'') rs"
    by blast
  from r(2) have "mset rs = {#s1, s2#}"
    unfolding search_samples(4) f by simp
  with r(1,3) have "\<exists>rs. search_results [s1, s2, s3] ''  TRAVEL '' = Inr rs \<and>
      mset rs = {#s1, s2#} \<and>
      sorted_wrt (\<lambda>a b. text_field b ''date'' \<le> text_field a ''date'') rs"
    by blast
  with f search_samples show ?thesis by blast
qed

end
